theory Spec2Isabelle
  imports Complex_Main "HOL-Library.Sublist"
begin

section \<open>Numbers\<close>

text \<open>
  A number of the language is an IEEE 754 double: \<open>NaN\<close>, an infinity, or a finite
  value, kept as the real number it denotes. \<open>toDouble\<close> is the rounding of the format
  (to nearest, ties to even, 53 significant bits, exponents from -1074, overflow to an
  infinity): every arithmetic operation on finite doubles returns the rounding of its
  exact result. The sign of zero is not modelled.
\<close>

datatype jsnumber = NaN | NegInfinity | Num real | PosInfinity

definition pow2 :: "int \<Rightarrow> real" where
  "pow2 e = (if 0 \<le> e then 2 ^ nat e else 1 / 2 ^ nat (- e))"

definition roundHalfEven :: "real \<Rightarrow> int" where
  "roundHalfEven y =
     (let f = \<lfloor>y\<rfloor>; d = y - of_int f
      in if d < 1 / 2 then f else if 1 / 2 < d then f + 1 else if even f then f else f + 1)"

definition binaryExponent :: "real \<Rightarrow> int" where
  "binaryExponent x = \<lfloor>log 2 \<bar>x\<bar>\<rfloor>"

definition toDouble :: "real \<Rightarrow> jsnumber" where
  "toDouble x =
     (if x = 0 then Num 0
      else
        (let e = max (binaryExponent x - 52) (- 1074);
             r = of_int (roundHalfEven (x / pow2 e)) * pow2 e
         in if 2 ^ 1024 \<le> \<bar>r\<bar> then (if 0 < x then PosInfinity else NegInfinity)
            else Num r))"



text \<open>\<^verbatim>\<open>x + y\<close>, \<^verbatim>\<open>x > 0\<close> and \<^verbatim>\<open>x * y\<close> on numbers.\<close>

fun jsAdd :: "jsnumber \<Rightarrow> jsnumber \<Rightarrow> jsnumber" where
  "jsAdd (Num a) (Num b) = toDouble (a + b)"
| "jsAdd NaN y = NaN"
| "jsAdd x NaN = NaN"
| "jsAdd PosInfinity NegInfinity = NaN"
| "jsAdd NegInfinity PosInfinity = NaN"
| "jsAdd PosInfinity y = PosInfinity"
| "jsAdd x PosInfinity = PosInfinity"
| "jsAdd NegInfinity y = NegInfinity"
| "jsAdd x NegInfinity = NegInfinity"

fun jsPositive :: "jsnumber \<Rightarrow> bool" where
  "jsPositive (Num r) = (0 < r)"
| "jsPositive PosInfinity = True"
| "jsPositive x = False"

definition jsMul :: "jsnumber \<Rightarrow> jsnumber \<Rightarrow> jsnumber" where
  "jsMul x y =
     (if x = NaN \<or> y = NaN then NaN
      else
        (case (x, y) of
           (Num a, Num b) \<Rightarrow> toDouble (a * b)
         | _ \<Rightarrow>
             (if x = Num 0 \<or> y = Num 0 then NaN
              else if jsPositive x = jsPositive y then PosInfinity
              else NegInfinity)))"

text \<open>
  \<^verbatim>\<open>Math.max(0, x)\<close>, and \<^verbatim>\<open>x || 0\<close> on a number that may be missing (\<open>None\<close>:
  \<^verbatim>\<open>undefined\<close>): \<^verbatim>\<open>undefined\<close>, \<^verbatim>\<open>NaN\<close> and \<^verbatim>\<open>0\<close> are falsy.
\<close>

fun mathMax0 :: "jsnumber \<Rightarrow> jsnumber" where
  "mathMax0 NaN = NaN"
| "mathMax0 NegInfinity = Num 0"
| "mathMax0 (Num r) = Num (max 0 r)"
| "mathMax0 PosInfinity = PosInfinity"

fun orZero :: "jsnumber option \<Rightarrow> jsnumber" where
  "orZero None = Num 0"
| "orZero (Some NaN) = Num 0"
| "orZero (Some (Num r)) = (if r = 0 then Num 0 else Num r)"
| "orZero (Some v) = v"

section \<open>Session token accumulator of the ProviderManager\<close>

text \<open>
  \<^verbatim>\<open>ProviderManager.sessionTokenUsage\<close>: six counters, each a number (the fields carry
  the prefix \<open>s_\<close>, those of an update \<open>u_\<close>). A component of an update may be missing.
\<close>

record sessionTokenUsage =
  s_input :: jsnumber
  s_output :: jsnumber
  s_cache :: jsnumber
  s_tool :: jsnumber
  s_thought :: jsnumber
  s_total :: jsnumber

record usage =
  u_input :: "jsnumber option"
  u_output :: "jsnumber option"
  u_cache :: "jsnumber option"
  u_tool :: "jsnumber option"
  u_thought :: "jsnumber option"

text \<open>The field initialiser of the class: a fresh manager.\<close>

definition initialSessionTokenUsage :: sessionTokenUsage where
  "initialSessionTokenUsage =
     \<lparr>s_input = Num 0, s_output = Num 0, s_cache = Num 0, s_tool = Num 0, s_thought = Num 0,
      s_total = Num 0\<rparr>"

text \<open>
  \<^verbatim>\<open>accumulateSessionTokens(providerName, usage)\<close>; the provider name is not used. The
  sum added to the total associates to the left, as the expression of the source does.
\<close>

definition accumulateSessionTokens ::
  "string \<Rightarrow> usage \<Rightarrow> sessionTokenUsage \<Rightarrow> sessionTokenUsage" where
  "accumulateSessionTokens providerName u s =
     s\<lparr>s_input := jsAdd (s_input s) (mathMax0 (orZero (u_input u))),
       s_output := jsAdd (s_output s) (mathMax0 (orZero (u_output u))),
       s_cache := jsAdd (s_cache s) (mathMax0 (orZero (u_cache u))),
       s_tool := jsAdd (s_tool s) (mathMax0 (orZero (u_tool u))),
       s_thought := jsAdd (s_thought s) (mathMax0 (orZero (u_thought u))),
       s_total := jsAdd (s_total s)
         (jsAdd (jsAdd (jsAdd (jsAdd (mathMax0 (orZero (u_input u)))
                                    (mathMax0 (orZero (u_output u))))
                             (mathMax0 (orZero (u_cache u))))
                      (mathMax0 (orZero (u_tool u))))
                (mathMax0 (orZero (u_thought u))))\<rparr>"

definition resetSessionTokenUsage :: "sessionTokenUsage \<Rightarrow> sessionTokenUsage" where
  "resetSessionTokenUsage s =
     \<lparr>s_input = Num 0, s_output = Num 0, s_cache = Num 0, s_tool = Num 0, s_thought = Num 0,
      s_total = Num 0\<rparr>"

text \<open>\<^verbatim>\<open>getSessionTokenUsage()\<close>: every field read through \<^verbatim>\<open>|| 0\<close>.\<close>

definition getSessionTokenUsage :: "sessionTokenUsage \<Rightarrow> sessionTokenUsage" where
  "getSessionTokenUsage s =
     \<lparr>s_input = orZero (Some (s_input s)), s_output = orZero (Some (s_output s)),
      s_cache = orZero (Some (s_cache s)), s_tool = orZero (Some (s_tool s)),
      s_thought = orZero (Some (s_thought s)), s_total = orZero (Some (s_total s))\<rparr>"

text \<open>A sequence of calls \<^verbatim>\<open>accumulateSessionTokens(name, usage)\<close>, in order.\<close>

fun accumulateAll :: "(string \<times> usage) list \<Rightarrow> sessionTokenUsage \<Rightarrow> sessionTokenUsage" where
  "accumulateAll [] s = s"
| "accumulateAll ((n, u) # calls) s = accumulateAll calls (accumulateSessionTokens n u s)"

text \<open>
  The two parts of the invariant: no reported component is negative; the reported total
  is the sum, as real numbers, of the five other components.
\<close>

fun nonNegative :: "jsnumber \<Rightarrow> bool" where
  "nonNegative (Num r) = (0 \<le> r)"
| "nonNegative PosInfinity = True"
| "nonNegative x = False"

definition componentsNonNegative :: "sessionTokenUsage \<Rightarrow> bool" where
  "componentsNonNegative s \<longleftrightarrow>
     nonNegative (s_input s) \<and> nonNegative (s_output s) \<and> nonNegative (s_cache s) \<and>
     nonNegative (s_tool s) \<and> nonNegative (s_thought s) \<and> nonNegative (s_total s)"

definition totalIsSum :: "sessionTokenUsage \<Rightarrow> bool" where
  "totalIsSum s \<longleftrightarrow>
     (\<exists>i o' c t th.
        s_input s = Num i \<and> s_output s = Num o' \<and> s_cache s = Num c \<and> s_tool s = Num t \<and>
        s_thought s = Num th \<and> s_total s = Num (i + o' + c + t + th))"

text \<open>
  Token counts: a component that is an integer, of either sign, or missing, \<^verbatim>\<open>NaN\<close> or
  \<^verbatim>\<open>-Infinity\<close>; the count it contributes, which is 0 unless it is a positive integer;
  and the tokens of an update and of a sequence of calls.
\<close>

fun integralComponent :: "jsnumber option \<Rightarrow> bool" where
  "integralComponent (Some (Num r)) = (r \<in> \<int>)"
| "integralComponent (Some PosInfinity) = False"
| "integralComponent c = True"

fun countOf :: "jsnumber option \<Rightarrow> real" where
  "countOf (Some (Num r)) = max 0 r"
| "countOf c = 0"

definition integralUsage :: "usage \<Rightarrow> bool" where
  "integralUsage u \<longleftrightarrow>
     integralComponent (u_input u) \<and> integralComponent (u_output u) \<and>
     integralComponent (u_cache u) \<and> integralComponent (u_tool u) \<and>
     integralComponent (u_thought u)"

definition usageTotal :: "usage \<Rightarrow> real" where
  "usageTotal u =
     countOf (u_input u) + countOf (u_output u) + countOf (u_cache u) + countOf (u_tool u) +
     countOf (u_thought u)"

fun tokensOf :: "(string \<times> usage) list \<Rightarrow> real" where
  "tokensOf [] = 0"
| "tokensOf ((n, u) # calls) = usageTotal u + tokensOf calls"

text \<open>
  For the proofs: the counters hold non-negative integers and the total \<open>T\<close> is their sum.
\<close>

definition exactState :: "sessionTokenUsage \<Rightarrow> real \<Rightarrow> bool" where
  "exactState s T \<longleftrightarrow>
     (\<exists>i o' c t th.
        i \<in> \<int> \<and> o' \<in> \<int> \<and> c \<in> \<int> \<and> t \<in> \<int> \<and> th \<in> \<int> \<and>
        0 \<le> i \<and> 0 \<le> o' \<and> 0 \<le> c \<and> 0 \<le> t \<and> 0 \<le> th \<and>
        T = i + o' + c + t + th \<and>
        s = \<lparr>s_input = Num i, s_output = Num o', s_cache = Num c, s_tool = Num t,
             s_thought = Num th, s_total = Num T\<rparr>)"

section \<open>JavaScript values and the heap of error objects\<close>

text \<open>
  The retry engine inspects dynamically typed error values. A value is a primitive or a
  reference to an object; objects live in a heap (a list, addressed by index), so that
  error chains may share nodes and contain cycles. An object carries the properties the
  code of \<^verbatim>\<open>retry.ts\<close> reads; an absent property is \<open>JUndefined\<close>. \<open>JNum\<close> holds a
  number other than \<^verbatim>\<open>NaN\<close> (a \<^verbatim>\<open>NaN\<close> status fails every comparison the code makes, as
  any number outside the tested values does).
\<close>

datatype jsval = JUndefined | JNull | JBool bool | JNum real | JStr string | JRef nat

record jsobj =
  o_message :: jsval
  o_code :: jsval
  o_cause :: jsval
  o_originalError :: jsval
  o_error :: jsval
  o_status :: jsval
  o_response :: jsval
  o_headers :: jsval
  o_retry_after :: jsval
  o_name :: jsval
  o_details :: jsval
  o_isError :: bool

type_synonym heap = "jsobj list"

text \<open>An object literal \<^verbatim>\<open>{}\<close>: every property absent, not an instance of \<^verbatim>\<open>Error\<close>.\<close>

definition emptyObject :: jsobj where
  "emptyObject =
     \<lparr>o_message = JUndefined, o_code = JUndefined, o_cause = JUndefined,
      o_originalError = JUndefined, o_error = JUndefined, o_status = JUndefined,
      o_response = JUndefined, o_headers = JUndefined, o_retry_after = JUndefined,
      o_name = JUndefined, o_details = JUndefined, o_isError = False\<rparr>"

text \<open>Truthiness, as \<^verbatim>\<open>if (v)\<close> and \<^verbatim>\<open>v && ...\<close> test it.\<close>

fun truthy :: "jsval \<Rightarrow> bool" where
  "truthy JUndefined = False"
| "truthy JNull = False"
| "truthy (JBool b) = b"
| "truthy (JNum n) = (n \<noteq> 0)"
| "truthy (JStr s) = (s \<noteq> [])"
| "truthy (JRef a) = True"

text \<open>The object a value refers to, if it is a reference into the heap.\<close>

definition deref :: "heap \<Rightarrow> jsval \<Rightarrow> jsobj option" where
  "deref h v = (case v of JRef a \<Rightarrow> (if a < length h then Some (h ! a) else None) | _ \<Rightarrow> None)"

text \<open>
  The errors that the language and the code themselves raise: \<^verbatim>\<open>Error\<close> and its
  subclasses \<^verbatim>\<open>SyntaxError\<close> (thrown by \<^verbatim>\<open>JSON.parse\<close>) and \<^verbatim>\<open>TypeError\<close> (thrown by a
  property read on \<^verbatim>\<open>null\<close> or \<^verbatim>\<open>undefined\<close> and by a call of what is not a function),
  each with its message.
\<close>

datatype jsError = Error string | SyntaxError string | TypeError string

fun errorMessage :: "jsError \<Rightarrow> string" where
  "errorMessage (Error m) = m"
| "errorMessage (SyntaxError m) = m"
| "errorMessage (TypeError m) = m"

fun instanceofSyntaxError :: "jsError \<Rightarrow> bool" where
  "instanceofSyntaxError (SyntaxError m) = True"
| "instanceofSyntaxError e = False"

subsection \<open>Strings\<close>

text \<open>
  A string is a list of characters (code units); the case mappings below are the ASCII
  ones, which is all that the literals of the source involve.
\<close>

definition upperChars :: string where
  "upperChars = ''ABCDEFGHIJKLMNOPQRSTUVWXYZ''"

definition lowerChars :: string where
  "lowerChars = ''abcdefghijklmnopqrstuvwxyz''"

definition toLowerChar :: "char \<Rightarrow> char" where
  "toLowerChar c = (case map_of (zip upperChars lowerChars) c of Some d \<Rightarrow> d | None \<Rightarrow> c)"

definition toUpperChar :: "char \<Rightarrow> char" where
  "toUpperChar c = (case map_of (zip lowerChars upperChars) c of Some d \<Rightarrow> d | None \<Rightarrow> c)"

definition toLowerCase :: "string \<Rightarrow> string" where
  "toLowerCase s = map toLowerChar s"

definition toUpperCase :: "string \<Rightarrow> string" where
  "toUpperCase s = map toUpperChar s"

text \<open>\<^verbatim>\<open>s.includes(sub)\<close>: \<open>sub\<close> occurs in \<open>s\<close> at some position.\<close>

fun str_includes :: "string \<Rightarrow> string \<Rightarrow> bool" where
  "str_includes [] sub = (sub = [])"
| "str_includes (c # cs) sub = (prefix sub (c # cs) \<or> str_includes cs sub)"

subsection \<open>Transient network errors\<close>

definition STREAM_INTERRUPTED_ERROR_CODE :: string where
  "STREAM_INTERRUPTED_ERROR_CODE = ''LLXPRT_STREAM_INTERRUPTED''"

definition TRANSIENT_ERROR_PHRASES :: "string list" where
  "TRANSIENT_ERROR_PHRASES =
     [''connection error'', ''connection terminated'', ''connection reset'',
      ''socket hang up'', ''socket hung up'', ''socket closed'', ''socket timeout'',
      ''network timeout'', ''network error'', ''fetch failed'', ''request aborted'',
      ''request timeout'', ''stream closed'', ''stream prematurely closed'',
      ''read econnreset'', ''write econnreset'']"

text \<open>
  The four regular expressions, all with the flag \<^verbatim>\<open>i\<close> and none anchored: each is a
  search for one of a few literals in the lower-cased text; the last one allows any run
  of characters other than line terminators between its two literals.
\<close>

definition regex_econn :: "string \<Rightarrow> bool" where
  "regex_econn msg =
     (let l = toLowerCase msg in
      str_includes l ''econnreset'' \<or> str_includes l ''econnrefused'' \<or>
      str_includes l ''econnaborted'')"

definition regex_etimedout :: "string \<Rightarrow> bool" where
  "regex_etimedout msg = str_includes (toLowerCase msg) ''etimedout''"

definition regex_und_err :: "string \<Rightarrow> bool" where
  "regex_und_err msg =
     (let l = toLowerCase msg in
      str_includes l ''und_err_socket'' \<or> str_includes l ''und_err_connect'' \<or>
      str_includes l ''und_err_headers_timeout'' \<or> str_includes l ''und_err_body_timeout'')"

definition isLineTerminator :: "char \<Rightarrow> bool" where
  "isLineTerminator c = (c = CHR 0x0A \<or> c = CHR 0x0D)"

text \<open>\<^verbatim>\<open>.*(reset|closed)\<close> matched at the start of the text.\<close>

fun dotStarResetClosed :: "string \<Rightarrow> bool" where
  "dotStarResetClosed [] = False"
| "dotStarResetClosed (c # cs) =
     (prefix ''reset'' (c # cs) \<or> prefix ''closed'' (c # cs) \<or>
      (\<not> isLineTerminator c \<and> dotStarResetClosed cs))"

fun searchTcpConnection :: "string \<Rightarrow> bool" where
  "searchTcpConnection [] = False"
| "searchTcpConnection (c # cs) =
     ((prefix ''tcp connection'' (c # cs) \<and> dotStarResetClosed (drop 14 (c # cs))) \<or>
      searchTcpConnection cs)"

definition regex_tcp_connection :: "string \<Rightarrow> bool" where
  "regex_tcp_connection msg = searchTcpConnection (toLowerCase msg)"

definition TRANSIENT_ERROR_REGEXES :: "(string \<Rightarrow> bool) list" where
  "TRANSIENT_ERROR_REGEXES =
     [regex_econn, regex_etimedout, regex_und_err, regex_tcp_connection]"

definition TRANSIENT_ERROR_CODES :: "string list" where
  "TRANSIENT_ERROR_CODES =
     [''ECONNRESET'', ''ECONNREFUSED'', ''ECONNABORTED'', ''ENETUNREACH'',
      ''EHOSTUNREACH'', ''ETIMEDOUT'', ''EPIPE'', ''EAI_AGAIN'', ''UND_ERR_SOCKET'',
      ''UND_ERR_CONNECT_TIMEOUT'', ''UND_ERR_HEADERS_TIMEOUT'', ''UND_ERR_BODY_TIMEOUT'',
      STREAM_INTERRUPTED_ERROR_CODE]"

text \<open>
  The three nested errors of an object are pushed in the order cause, originalError,
  error, each only when truthy and not the object itself. The stack is a list whose head
  is the top.
\<close>

fun pushNested :: "jsval \<Rightarrow> jsval list \<Rightarrow> jsval list \<Rightarrow> jsval list" where
  "pushNested current [] stack = stack"
| "pushNested current (nested # others) stack =
     pushNested current others
       (if truthy nested \<and> nested \<noteq> current then nested # stack else stack)"

definition pushMessage :: "jsval \<Rightarrow> string list \<Rightarrow> string list" where
  "pushMessage v xs = (case v of JStr s \<Rightarrow> xs @ [s] | _ \<Rightarrow> xs)"

text \<open>
  The loop of \<^verbatim>\<open>collectErrorDetails\<close>. A reference outside the heap cannot arise in the
  program; the model skips it.
\<close>

function (sequential) collectLoop ::
  "heap \<Rightarrow> jsval list \<Rightarrow> nat set \<Rightarrow> string list \<Rightarrow> string list \<Rightarrow> string list \<times> string list"
  where
  "collectLoop h [] visited messages codes = (messages, codes)"
| "collectLoop h (JNull # stack) visited messages codes =
     collectLoop h stack visited messages codes"
| "collectLoop h (JUndefined # stack) visited messages codes =
     collectLoop h stack visited messages codes"
| "collectLoop h (JStr s # stack) visited messages codes =
     collectLoop h stack visited (messages @ [s]) codes"
| "collectLoop h (JBool b # stack) visited messages codes =
     collectLoop h stack visited messages codes"
| "collectLoop h (JNum n # stack) visited messages codes =
     collectLoop h stack visited messages codes"
| "collectLoop h (JRef a # stack) visited messages codes =
     (if a \<in> visited \<or> length h \<le> a then collectLoop h stack visited messages codes
      else
        collectLoop h
          (pushNested (JRef a)
             [o_cause (h ! a), o_originalError (h ! a), o_error (h ! a)] stack)
          (insert a visited)
          (pushMessage (o_message (h ! a)) messages)
          (pushMessage (o_code (h ! a)) codes))"
  by pat_completeness auto
termination
proof (relation "inv_image (less_than <*lex*> less_than)
    (\<lambda>(h, stack, visited, messages, codes). (card ({..<length h} - visited), length stack))")
  show "wf (inv_image (less_than <*lex*> less_than)
    (\<lambda>(h, stack, visited, messages, codes). (card ({..<length h} - visited), length stack)))"
    by (intro wf_inv_image wf_lex_prod wf_less_than)
next
  fix h :: heap and a :: nat and stack :: "jsval list" and visited :: "nat set"
    and messages codes :: "string list"
  assume "\<not> (a \<in> visited \<or> length h \<le> a)"
  then have a: "a \<notin> visited" "a < length h" by auto
  have "{..<length h} - insert a visited \<subset> {..<length h} - visited"
    using a by auto
  then have "card ({..<length h} - insert a visited) < card ({..<length h} - visited)"
    by (simp add: psubset_card_mono)
  then show "((h, pushNested (JRef a)
                 [o_cause (h ! a), o_originalError (h ! a), o_error (h ! a)] stack,
               insert a visited, pushMessage (o_message (h ! a)) messages,
               pushMessage (o_code (h ! a)) codes),
              (h, JRef a # stack, visited, messages, codes))
        \<in> inv_image (less_than <*lex*> less_than)
            (\<lambda>(h, stack, visited, messages, codes).
               (card ({..<length h} - visited), length stack))"
    by simp
qed simp_all

definition collectErrorDetails :: "heap \<Rightarrow> jsval \<Rightarrow> string list \<times> string list" where
  "collectErrorDetails h error = collectLoop h [error] {} [] []"

definition isNetworkTransientError :: "heap \<Rightarrow> jsval \<Rightarrow> bool" where
  "isNetworkTransientError h error =
     (let (messages, codes) = collectErrorDetails h error;
          lowerMessages = map toLowerCase messages
      in if list_ex (\<lambda>msg. list_ex (\<lambda>phrase. str_includes msg phrase)
               TRANSIENT_ERROR_PHRASES) lowerMessages
         then True
         else if list_ex (\<lambda>msg. list_ex (\<lambda>regex. regex msg) TRANSIENT_ERROR_REGEXES)
               messages
         then True
         else if list_ex (\<lambda>code. code \<in> set TRANSIENT_ERROR_CODES) (map toUpperCase codes)
         then True
         else False)"



subsection \<open>The error chain, in the words of the specification\<close>

text \<open>
  The chain of an error: the nodes reached by following \<^verbatim>\<open>cause\<close>, \<^verbatim>\<open>originalError\<close> and
  \<^verbatim>\<open>error\<close> any number of times. A node is transient when its code, upper-cased, is a
  transient code, or its message (for a string node, the string) contains a transient
  phrase or matches a transient regular expression.
\<close>

definition nestedErrors :: "heap \<Rightarrow> jsval \<Rightarrow> jsval list" where
  "nestedErrors h v =
     (case deref h v of
        Some obj \<Rightarrow> [o_cause obj, o_originalError obj, o_error obj]
      | None \<Rightarrow> [])"

inductive_set errorChain :: "heap \<Rightarrow> jsval \<Rightarrow> jsval set" for h :: heap and error :: jsval where
  root: "error \<in> errorChain h error"
| nested: "v \<in> errorChain h error \<Longrightarrow> n \<in> set (nestedErrors h v) \<Longrightarrow> n \<in> errorChain h error"







section \<open>The retry engine\<close>

subsection \<open>Reading the status and the Retry-After header\<close>

text \<open>\<^verbatim>\<open>getErrorStatus\<close>: \<^verbatim>\<open>error.status\<close> when a number, else \<^verbatim>\<open>error.response.status\<close>.\<close>

definition getErrorStatus :: "heap \<Rightarrow> jsval \<Rightarrow> real option" where
  "getErrorStatus h error =
     (case deref h error of
        None \<Rightarrow> None
      | Some obj \<Rightarrow>
          (case o_status obj of
             JNum n \<Rightarrow> Some n
           | _ \<Rightarrow>
               (case deref h (o_response obj) of
                  None \<Rightarrow> None
                | Some response \<Rightarrow>
                    (case o_status response of JNum n \<Rightarrow> Some n | _ \<Rightarrow> None))))"

text \<open>
  The white space that \<^verbatim>\<open>parseInt\<close> skips and \<^verbatim>\<open>trim\<close> strips (white space and line
  terminators of the language). A character of the model is a code unit below 256; among
  these, the white space is TAB, LF, VT, FF, CR, SP and the no-break space U+00A0. The
  white space above U+00FF (U+1680, U+2000 to U+200A, U+2028, U+2029, U+202F, U+205F,
  U+3000, U+FEFF) is not a character of the model.
\<close>

definition isStrWhiteSpaceChar :: "char \<Rightarrow> bool" where
  "isStrWhiteSpaceChar c \<longleftrightarrow>
     c \<in> set [CHR 0x09, CHR 0x0A, CHR 0x0B, CHR 0x0C, CHR 0x0D, CHR 0x20, CHR 0xA0]"

definition digitChars :: string where
  "digitChars = ''0123456789''"

definition digitVal :: "char \<Rightarrow> nat option" where
  "digitVal c = map_of (zip digitChars [0 ..< 10]) c"

definition isDigit :: "char \<Rightarrow> bool" where
  "isDigit c = (digitVal c \<noteq> None)"

definition digitsValue :: "string \<Rightarrow> nat" where
  "digitsValue ds = foldl (\<lambda>acc c. 10 * acc + the (digitVal c)) 0 ds"

text \<open>
  \<^verbatim>\<open>parseInt(s, 10)\<close> of the language: leading white space is skipped, one sign is read,
  then the longest run of decimal digits; no digit gives \<^verbatim>\<open>NaN\<close>. The result is a number
  of the language: the double nearest to the integer that was read (beyond 20 significant
  digits the language lets an implementation approximate further; the model rounds the
  exact integer).
\<close>

definition parseInt :: "string \<Rightarrow> jsnumber" where
  "parseInt inputString =
     (let S = dropWhile isStrWhiteSpaceChar inputString;
          sign = (case S of c # cs \<Rightarrow> (if c = CHR ''-'' then - 1 else 1) | [] \<Rightarrow> (1::int));
          S1 = (case S of c # cs \<Rightarrow> (if c = CHR ''-'' \<or> c = CHR ''+'' then cs else S)
                | [] \<Rightarrow> S);
          Z = takeWhile isDigit S1
      in if Z = [] then NaN else toDouble (real_of_int (sign * int (digitsValue Z))))"

text \<open>
  \<^verbatim>\<open>getRetryAfterDelayMs\<close>. Parsing an HTTP date (\<^verbatim>\<open>new Date(header).getTime()\<close>) is
  left to the parameter \<open>parseDate\<close> (\<open>None\<close>: an invalid date); \<open>now\<close> is the reading
  of \<^verbatim>\<open>Date.now()\<close>. The product and the difference are those of the language.
\<close>

definition getRetryAfterDelayMs ::
  "heap \<Rightarrow> (string \<Rightarrow> real option) \<Rightarrow> real \<Rightarrow> jsval \<Rightarrow> jsnumber" where
  "getRetryAfterDelayMs h parseDate now error =
     (case deref h error of
        None \<Rightarrow> Num 0
      | Some obj \<Rightarrow>
          (case deref h (o_response obj) of
             None \<Rightarrow> Num 0
           | Some response \<Rightarrow>
               (case deref h (o_headers response) of
                  None \<Rightarrow> Num 0
                | Some headers \<Rightarrow>
                    (case o_retry_after headers of
                       JStr retryAfterHeader \<Rightarrow>
                         (let retryAfterSeconds = parseInt retryAfterHeader
                          in if retryAfterSeconds \<noteq> NaN then jsMul retryAfterSeconds (Num 1000)
                             else
                               (case parseDate retryAfterHeader of
                                  Some t \<Rightarrow> mathMax0 (toDouble (t - now))
                                | None \<Rightarrow> Num 0))
                     | _ \<Rightarrow> Num 0))))"

definition getDelayDurationAndStatus ::
  "heap \<Rightarrow> (string \<Rightarrow> real option) \<Rightarrow> real \<Rightarrow> jsval \<Rightarrow> jsnumber \<times> real option" where
  "getDelayDurationAndStatus h parseDate now error =
     (let errorStatus = getErrorStatus h error;
          delayDurationMs =
            (if errorStatus = Some 429 then getRetryAfterDelayMs h parseDate now error
             else Num 0)
      in (delayDurationMs, errorStatus))"

subsection \<open>The default retry predicate\<close>

text \<open>\<^verbatim>\<open>/5\d{2}/\<close>: a 5 followed by two digits, anywhere in the text.\<close>

fun regex_5xx :: "string \<Rightarrow> bool" where
  "regex_5xx (a # b # c # cs) =
     ((a = CHR ''5'' \<and> isDigit b \<and> isDigit c) \<or> regex_5xx (b # c # cs))"
| "regex_5xx cs = False"

text \<open>
  \<^verbatim>\<open>defaultShouldRetry\<close>. Only an object has a \<^verbatim>\<open>status\<close>. The message of an \<^verbatim>\<open>Error\<close> is
  read as it is: an instance without a message of its own has the empty message of
  \<^verbatim>\<open>Error.prototype\<close>, which is falsy; a truthy message that is not a string has no
  \<^verbatim>\<open>includes\<close>, and the call raises a \<^verbatim>\<open>TypeError\<close> (\<open>Inl\<close>).
\<close>

definition defaultShouldRetry :: "heap \<Rightarrow> jsval \<Rightarrow> jsError + bool" where
  "defaultShouldRetry h error =
     (let byStatus =
            (case deref h error of
               Some obj \<Rightarrow>
                 (case o_status obj of
                    JNum status \<Rightarrow> status = 429 \<or> (500 \<le> status \<and> status < 600)
                  | _ \<Rightarrow> False)
             | None \<Rightarrow> False);
          byMessage =
            (case deref h error of
               Some obj \<Rightarrow>
                 (if o_isError obj \<and> truthy (o_message obj) then
                    (case o_message obj of
                       JStr m \<Rightarrow> Inr (str_includes m ''429'' \<or> regex_5xx m)
                     | _ \<Rightarrow> Inl (TypeError ''error.message.includes is not a function''))
                  else Inr False)
             | None \<Rightarrow> Inr False)
      in if byStatus then Inr True
         else
           (case byMessage of
              Inl raised \<Rightarrow> Inl raised
            | Inr found \<Rightarrow>
                if found then Inr True
                else if isNetworkTransientError h error then Inr True
                else Inr False))"

text \<open>
  \<^verbatim>\<open>logRetryAttempt\<close>, called before a backoff wait. What it prints is not modelled; what
  matters to the loop is whether it returns (\<open>None\<close>) or raises. It reads
  \<^verbatim>\<open>error.message.includes\<close> of an \<^verbatim>\<open>Error\<close> whose status is neither 429 nor in the 5xx
  range, without testing the message first.
\<close>

definition logRetryAttempt :: "heap \<Rightarrow> jsval \<Rightarrow> real option \<Rightarrow> jsError option" where
  "logRetryAttempt h error errorStatus =
     (if errorStatus = Some 429 then None
      else if (case errorStatus of
                 Some status \<Rightarrow> status \<noteq> 0 \<and> 500 \<le> status \<and> status < 600
               | None \<Rightarrow> False) then None
      else
        (case deref h error of
           Some obj \<Rightarrow>
             (if o_isError obj then
                (case o_message obj of
                   JStr m \<Rightarrow> None
                 | JUndefined \<Rightarrow> None
                 | JNull \<Rightarrow>
                     Some (TypeError
                       (''Cannot read properties of null (reading '' @ [CHR 0x27] @
                        ''includes'' @ [CHR 0x27] @ '')''))
                 | _ \<Rightarrow> Some (TypeError ''error.message.includes is not a function''))
              else None)
         | None \<Rightarrow> None))"

subsection \<open>Options\<close>

text \<open>
  \<^verbatim>\<open>RetryOptions\<close>. The number of attempts is an integer and the delays are finite
  numbers, taken as the real numbers they denote: the arithmetic of the loop on delays is
  that of the reals. \<^verbatim>\<open>shouldRetry\<close> is a function of the error that returns a boolean or
  raises.
\<close>

record RetryOptions =
  maxAttempts :: int
  initialDelayMs :: real
  maxDelayMs :: real
  shouldRetry :: "jsval \<Rightarrow> jsError + bool"

definition DEFAULT_RETRY_OPTIONS :: "heap \<Rightarrow> RetryOptions" where
  "DEFAULT_RETRY_OPTIONS h =
     \<lparr>maxAttempts = 5, initialDelayMs = 5000, maxDelayMs = 30000,
      shouldRetry = defaultShouldRetry h\<rparr>"

text \<open>
  \<^verbatim>\<open>Partial<RetryOptions>\<close>. A key of the caller's object is absent, present with the
  value \<^verbatim>\<open>undefined\<close>, or present with a value; the type admits all three for
  \<^verbatim>\<open>maxAttempts\<close> and \<^verbatim>\<open>shouldRetry\<close>. A delay is absent (\<open>None\<close>) or a finite number. The
  throttle tracker is a callback; the model records whether there is one, and the values
  it is called with.
\<close>

datatype 'a key = Absent | Undefined | Present 'a

record PartialRetryOptions =
  p_maxAttempts :: "int key"
  p_initialDelayMs :: "real option"
  p_maxDelayMs :: "real option"
  p_shouldRetry :: "(jsval \<Rightarrow> jsError + bool) key"
  p_trackThrottleWaitTime :: bool

text \<open>
  \<^verbatim>\<open>{ ...DEFAULT_RETRY_OPTIONS, ...options }\<close>: every key that is present in \<^verbatim>\<open>options\<close>
  overrides the default, also when its value is \<^verbatim>\<open>undefined\<close> (\<open>None\<close> in the result).
\<close>

record MergedOptions =
  m_maxAttempts :: "int option"
  m_initialDelayMs :: real
  m_maxDelayMs :: real
  m_shouldRetry :: "(jsval \<Rightarrow> jsError + bool) option"

definition mergeOptions :: "RetryOptions \<Rightarrow> PartialRetryOptions option \<Rightarrow> MergedOptions" where
  "mergeOptions d options =
     (case options of
        None \<Rightarrow>
          \<lparr>m_maxAttempts = Some (maxAttempts d), m_initialDelayMs = initialDelayMs d,
           m_maxDelayMs = maxDelayMs d, m_shouldRetry = Some (shouldRetry d)\<rparr>
      | Some p \<Rightarrow>
          \<lparr>m_maxAttempts =
             (case p_maxAttempts p of
                Absent \<Rightarrow> Some (maxAttempts d) | Undefined \<Rightarrow> None | Present v \<Rightarrow> Some v),
           m_initialDelayMs =
             (case p_initialDelayMs p of Some v \<Rightarrow> v | None \<Rightarrow> initialDelayMs d),
           m_maxDelayMs = (case p_maxDelayMs p of Some v \<Rightarrow> v | None \<Rightarrow> maxDelayMs d),
           m_shouldRetry =
             (case p_shouldRetry p of
                Absent \<Rightarrow> Some (shouldRetry d) | Undefined \<Rightarrow> None | Present v \<Rightarrow> Some v)\<rparr>)"

subsection \<open>The loop\<close>

text \<open>
  What the engine does not decide: the heap of error objects, the outcome of each
  invocation of \<^verbatim>\<open>fn\<close> (numbered from 0; \<open>Inl\<close> is the value thrown), the values of
  \<^verbatim>\<open>Math.random()\<close> (numbered from 0), the reading of \<^verbatim>\<open>Date.now()\<close> during each attempt,
  and the date parser.
\<close>

record 'a world =
  w_heap :: heap
  w_fn :: "nat \<Rightarrow> jsval + 'a"
  w_random :: "nat \<Rightarrow> real"
  w_now :: "nat \<Rightarrow> real"
  w_parseDate :: "string \<Rightarrow> real option"

text \<open>
  A sleep is \<^verbatim>\<open>await delay(ms)\<close>, recorded with the number passed to \<^verbatim>\<open>delay\<close>; the two
  call sites are told apart: the explicit delay of a Retry-After header, a number of the
  language, and the exponential backoff with jitter.
\<close>

datatype wait = ExplicitWait jsnumber | BackoffWait real

record retryState =
  attempt :: nat
  currentDelay :: real
  waits :: "wait list"
  tracked :: "jsnumber list"
  draws :: nat

text \<open>
  How a run ends: \<^verbatim>\<open>fn\<close> returned a value; the error of \<^verbatim>\<open>fn\<close> is re-raised; an error
  raised inside the \<^verbatim>\<open>catch\<close> block by \<^verbatim>\<open>shouldRetry\<close> or by \<^verbatim>\<open>logRetryAttempt\<close> leaves the
  function; or the \<^verbatim>\<open>Error('Retry attempts exhausted')\<close> after the loop.
\<close>

datatype 'a retryResult = Returned 'a | Thrown jsval | ThrownError jsError | ThrownExhausted

text \<open>
  The \<^verbatim>\<open>while\<close> loop of \<^verbatim>\<open>retryWithBackoff\<close>. The test
  \<^verbatim>\<open>attempt >= maxAttempts || !shouldRetry(error)\<close> calls \<^verbatim>\<open>shouldRetry\<close> only when attempts
  remain.
\<close>

function retryLoop ::
  "'a world \<Rightarrow> RetryOptions \<Rightarrow> bool \<Rightarrow> retryState \<Rightarrow> 'a retryResult \<times> retryState" where
  "retryLoop w opts track st =
     (if int (attempt st) < maxAttempts opts then
        (case w_fn w (attempt st) of
           Inr v \<Rightarrow> (Returned v, st\<lparr>attempt := attempt st + 1\<rparr>)
         | Inl error \<Rightarrow>
             (let errorStatus = getErrorStatus (w_heap w) error
              in if maxAttempts opts \<le> int (attempt st + 1)
                 then (Thrown error, st\<lparr>attempt := attempt st + 1\<rparr>)
                 else
                   (case shouldRetry opts error of
                      Inl raised \<Rightarrow> (ThrownError raised, st\<lparr>attempt := attempt st + 1\<rparr>)
                    | Inr retry \<Rightarrow>
                        (if \<not> retry then (Thrown error, st\<lparr>attempt := attempt st + 1\<rparr>)
                         else
                           (let delayDurationMs =
                                  fst (getDelayDurationAndStatus (w_heap w) (w_parseDate w)
                                         (w_now w (attempt st)) error)
                            in if jsPositive delayDurationMs then
                                 retryLoop w opts track
                                   (st\<lparr>attempt := attempt st + 1,
                                       waits := waits st @ [ExplicitWait delayDurationMs],
                                       tracked :=
                                         (if track then tracked st @ [delayDurationMs]
                                          else tracked st),
                                       currentDelay := initialDelayMs opts\<rparr>)
                               else
                                 (case logRetryAttempt (w_heap w) error errorStatus of
                                    Some raised \<Rightarrow>
                                      (ThrownError raised, st\<lparr>attempt := attempt st + 1\<rparr>)
                                  | None \<Rightarrow>
                                      (let jitter =
                                             currentDelay st * 0.3 *
                                             (w_random w (draws st) * 2 - 1);
                                           delayWithJitter = max 0 (currentDelay st + jitter)
                                       in retryLoop w opts track
                                            (st\<lparr>attempt := attempt st + 1,
                                                waits := waits st @ [BackoffWait delayWithJitter],
                                                tracked :=
                                                  (if track
                                                   then tracked st @ [Num delayWithJitter]
                                                   else tracked st),
                                                draws := draws st + 1,
                                                currentDelay :=
                                                  min (maxDelayMs opts)
                                                    (currentDelay st * 2)\<rparr>))))))))
      else (ThrownExhausted, st))"
  by pat_completeness auto
termination
  by (relation "measure (\<lambda>(w, opts, track, st). nat (maxAttempts opts - int (attempt st)))")
    auto

text \<open>
  \<^verbatim>\<open>retryWithBackoff(fn, options)\<close>. With \<^verbatim>\<open>maxAttempts\<close> \<^verbatim>\<open>undefined\<close> the test
  \<^verbatim>\<open>attempt < maxAttempts\<close> is false and the loop is never entered; \<^verbatim>\<open>shouldRetry\<close>
  \<^verbatim>\<open>undefined\<close> cannot be called.
\<close>

definition retryWithBackoff ::
  "'a world \<Rightarrow> PartialRetryOptions option \<Rightarrow> 'a retryResult \<times> retryState" where
  "retryWithBackoff w options =
     (let merged = mergeOptions (DEFAULT_RETRY_OPTIONS (w_heap w)) options;
          track = (case options of Some p \<Rightarrow> p_trackThrottleWaitTime p | None \<Rightarrow> False);
          st0 = \<lparr>attempt = 0, currentDelay = m_initialDelayMs merged, waits = [],
                 tracked = [], draws = 0\<rparr>
      in case m_maxAttempts merged of
           None \<Rightarrow> (ThrownExhausted, st0)
         | Some n \<Rightarrow>
             retryLoop w
               \<lparr>maxAttempts = n, initialDelayMs = m_initialDelayMs merged,
                maxDelayMs = m_maxDelayMs merged,
                shouldRetry =
                  (case m_shouldRetry merged of
                     Some f \<Rightarrow> f
                   | None \<Rightarrow> (\<lambda>error. Inl (TypeError ''shouldRetry is not a function'')))\<rparr>
               track st0)"

text \<open>
  An invocation that fails is retried, when attempts remain, if \<^verbatim>\<open>shouldRetry\<close> returns
  true and the wait is reached: an explicit delay, or a backoff that \<^verbatim>\<open>logRetryAttempt\<close>
  lets through.
\<close>

definition retried :: "'a world \<Rightarrow> (jsval \<Rightarrow> jsError + bool) \<Rightarrow> nat \<Rightarrow> bool" where
  "retried w sr j =
     (case w_fn w j of
        Inr v \<Rightarrow> False
      | Inl error \<Rightarrow>
          sr error = Inr True \<and>
          (jsPositive (fst (getDelayDurationAndStatus (w_heap w) (w_parseDate w) (w_now w j)
                              error)) \<or>
           logRetryAttempt (w_heap w) error (getErrorStatus (w_heap w) error) = None))"


text \<open>The jitter of the backoff branch: \<^verbatim>\<open>currentDelay * 0.3 * (Math.random() * 2 - 1)\<close>.\<close>

definition jitterOf :: "'a world \<Rightarrow> retryState \<Rightarrow> real" where
  "jitterOf w st = currentDelay st * 0.3 * (w_random w (draws st) * 2 - 1)"

section \<open>The template engine\<close>

text \<open>
  The declaration of \<^verbatim>\<open>TemplateVariables\<close> is not among the sources; the code treats
  it as a plain object: a value is a string, \<^verbatim>\<open>null\<close> or \<^verbatim>\<open>undefined\<close>. The variable
  map is the object's own keys. The operator \<^verbatim>\<open>in\<close> and the property read also see what
  the object inherits from its prototype, which for an object literal is
  \<^verbatim>\<open>Object.prototype\<close>, an object of the running program that the call does not receive
  as an argument. The prototype is therefore a parameter of the model, a map like the
  variables; \<open>Object_prototype\<close> is the one a program starts with, \<open>TInherited name\<close> its
  built-in member of that name, and \<open>String_of\<close> is \<^verbatim>\<open>String(value)\<close>.
\<close>

datatype templateValue = TUndefined | TNull | TString string | TInherited string

definition objectPrototypeKeys :: "string list" where
  "objectPrototypeKeys =
     [''constructor'', ''__defineGetter__'', ''__defineSetter__'', ''hasOwnProperty'',
      ''__lookupGetter__'', ''__lookupSetter__'', ''isPrototypeOf'',
      ''propertyIsEnumerable'', ''toString'', ''valueOf'', ''__proto__'',
      ''toLocaleString'']"

type_synonym TemplateVariables = "string \<rightharpoonup> templateValue"

type_synonym prototype = "string \<rightharpoonup> templateValue"

definition Object_prototype :: prototype where
  "Object_prototype name =
     (if name \<in> set objectPrototypeKeys then Some (TInherited name) else None)"

text \<open>\<^verbatim>\<open>name in vars\<close> and \<^verbatim>\<open>vars[name]\<close>, for variables with the prototype \<open>proto\<close>.\<close>

definition hasProperty :: "prototype \<Rightarrow> TemplateVariables \<Rightarrow> string \<Rightarrow> bool" where
  "hasProperty proto vars name \<longleftrightarrow> vars name \<noteq> None \<or> proto name \<noteq> None"

definition getProperty :: "prototype \<Rightarrow> TemplateVariables \<Rightarrow> string \<Rightarrow> templateValue" where
  "getProperty proto vars name =
     (case vars name of
        Some v \<Rightarrow> v
      | None \<Rightarrow> (case proto name of Some v \<Rightarrow> v | None \<Rightarrow> TUndefined))"

fun String_of :: "templateValue \<Rightarrow> string" where
  "String_of TUndefined = ''undefined''"
| "String_of TNull = ''null''"
| "String_of (TString s) = s"
| "String_of (TInherited name) =
     (if name = ''__proto__'' then ''[object Object]''
      else if name = ''constructor'' then ''function Object() { [native code] }''
      else ''function '' @ name @ ''() { [native code] }'')"

text \<open>
  \<^verbatim>\<open>s.indexOf(pat, fromIndex)\<close> (\<open>None\<close> for -1), \<^verbatim>\<open>s.substring(a, b)\<close> and \<^verbatim>\<open>s.trim()\<close>.
\<close>

fun findFirst :: "string \<Rightarrow> string \<Rightarrow> nat option" where
  "findFirst [] pat = (if pat = [] then Some 0 else None)"
| "findFirst (c # cs) pat =
     (if prefix pat (c # cs) then Some 0 else map_option Suc (findFirst cs pat))"

definition indexOf :: "string \<Rightarrow> string \<Rightarrow> nat \<Rightarrow> nat option" where
  "indexOf s pat fromIndex =
     map_option (\<lambda>i. min fromIndex (length s) + i) (findFirst (drop fromIndex s) pat)"

definition substring :: "string \<Rightarrow> nat \<Rightarrow> nat \<Rightarrow> string" where
  "substring s a b = take (max a b - min a b) (drop (min a b) s)"

definition trim :: "string \<Rightarrow> string" where
  "trim s = rev (dropWhile isStrWhiteSpaceChar (rev (dropWhile isStrWhiteSpaceChar s)))"

text \<open>
  \<^verbatim>\<open>logSubstitution\<close> reads \<^verbatim>\<open>process.env.DEBUG\<close> and the option \<^verbatim>\<open>debug\<close>, and writes to
  the console; the model returns the lines written.
\<close>

record TemplateProcessingOptions =
  debug :: "bool option"

definition logSubstitution ::
  "string option \<Rightarrow> TemplateProcessingOptions option \<Rightarrow> string \<Rightarrow> string \<Rightarrow> string list" where
  "logSubstitution env_DEBUG options variable val =
     (let debugEnabled =
            (env_DEBUG = Some ''1'' \<or>
             (case options of Some opts \<Rightarrow> debug opts = Some True | None \<Rightarrow> False))
      in if debugEnabled then [''Template substitution: '' @ variable @ '' -> '' @ val]
         else [])"

text \<open>
  The \<^verbatim>\<open>while\<close> loop of \<^verbatim>\<open>processTemplate\<close>, with its state: the current position, the
  result so far, and the console lines so far.
\<close>

function processLoop ::
  "prototype \<Rightarrow> string option \<Rightarrow> TemplateProcessingOptions option \<Rightarrow> string \<Rightarrow>
   TemplateVariables \<Rightarrow> nat \<Rightarrow> string \<Rightarrow> string list \<Rightarrow> string \<times> string list" where
  "processLoop proto env_DEBUG options content vars currentPosition result logged =
     (if currentPosition < length content then
        (case indexOf content ''{{'' currentPosition of
           None \<Rightarrow> (result @ drop currentPosition content, logged)
         | Some openBracketPos \<Rightarrow>
             (case indexOf content ''}}'' (openBracketPos + 2) of
                None \<Rightarrow>
                  (result @ substring content currentPosition openBracketPos @
                   drop openBracketPos content, logged)
              | Some closeBracketPos \<Rightarrow>
                  (let result1 = result @ substring content currentPosition openBracketPos;
                       variableName =
                         trim (substring content (openBracketPos + 2) closeBracketPos)
                   in if variableName = [] then
                        processLoop proto env_DEBUG options content vars (closeBracketPos + 2)
                          (result1 @ substring content openBracketPos (closeBracketPos + 2))
                          logged
                      else if str_includes variableName ''{{'' \<or>
                              str_includes variableName ''}}'' then
                        processLoop proto env_DEBUG options content vars (openBracketPos + 2)
                          (result1 @ substring content openBracketPos (openBracketPos + 2))
                          logged
                      else if hasProperty proto vars variableName then
                        (case getProperty proto vars variableName of
                           TNull \<Rightarrow>
                             processLoop proto env_DEBUG options content vars (closeBracketPos + 2)
                               result1 logged
                         | TUndefined \<Rightarrow>
                             processLoop proto env_DEBUG options content vars (closeBracketPos + 2)
                               result1 logged
                         | variableValue \<Rightarrow>
                             processLoop proto env_DEBUG options content vars (closeBracketPos + 2)
                               (result1 @ String_of variableValue)
                               (logged @ logSubstitution env_DEBUG options variableName
                                        (String_of variableValue)))
                      else
                        processLoop proto env_DEBUG options content vars (closeBracketPos + 2)
                          result1
                          (logged @ logSubstitution env_DEBUG options variableName []))))
      else (result, logged))"
  by pat_completeness auto
termination
proof -
  have ff: "\<And>i. findFirst s pat = Some i \<Longrightarrow> i + length pat \<le> length s"
    for s pat :: string
  proof (induction s)
    case Nil
    then show ?case by (simp split: if_splits)
  next
    case (Cons c cs)
    show ?case
    proof (cases "prefix pat (c # cs)")
      case True
      then show ?thesis using Cons.prems prefix_length_le [OF True] by simp
    next
      case False
      then show ?thesis using Cons by auto
    qed
  qed
  have io: "min fromIndex (length s) \<le> i \<and> i + length pat \<le> length s"
    if found: "indexOf s pat fromIndex = Some i" for s pat :: string and fromIndex i
  proof -
    obtain j where j: "findFirst (drop fromIndex s) pat = Some j"
      "i = min fromIndex (length s) + j"
      using found by (auto simp: indexOf_def)
    have "j + length pat \<le> length s - fromIndex" using ff [OF j(1)] by simp
    then show ?thesis using j(2) by (cases "fromIndex \<le> length s") auto
  qed
  show ?thesis
  proof (relation "measure (\<lambda>(proto, e, opts, content, vars, currentPosition, result, logged).
      length content - currentPosition)")
  qed (auto dest!: io)
qed

text \<open>
  \<^verbatim>\<open>processTemplate(content, variables, options)\<close>: a content that is \<^verbatim>\<open>null\<close> or
  \<^verbatim>\<open>undefined\<close> (\<open>None\<close>) gives the empty string, absent variables are the empty object.
  \<open>processTemplateIn proto\<close> is the call in a program where the prototype of the
  variables holds \<open>proto\<close>; \<open>processTemplate\<close> is the call in a program that has left
  \<^verbatim>\<open>Object.prototype\<close> as it was.
\<close>

definition processTemplateIn ::
  "prototype \<Rightarrow> string option \<Rightarrow> string option \<Rightarrow> TemplateVariables option \<Rightarrow>
   TemplateProcessingOptions option \<Rightarrow> string \<times> string list" where
  "processTemplateIn proto env_DEBUG content variables options =
     (case content of
        None \<Rightarrow> ([], [])
      | Some c \<Rightarrow>
          processLoop proto env_DEBUG options c
            (case variables of Some vars \<Rightarrow> vars | None \<Rightarrow> Map.empty) 0 [] [])"

definition processTemplate ::
  "string option \<Rightarrow> string option \<Rightarrow> TemplateVariables option \<Rightarrow>
   TemplateProcessingOptions option \<Rightarrow> string \<times> string list" where
  "processTemplate env_DEBUG content variables options =
     processTemplateIn Object_prototype env_DEBUG content variables options"

section \<open>The profile manager\<close>

text \<open>
  The declaration of \<^verbatim>\<open>Profile\<close> is not among the sources; a profile is a JSON value,
  which is what is written and read. \<^verbatim>\<open>loadProfile\<close> tells apart the errors \<^verbatim>\<open>Error\<close>,
  \<^verbatim>\<open>SyntaxError\<close> and \<^verbatim>\<open>TypeError\<close> by class and message.
\<close>

datatype json =
  JsonNull | JsonBool bool | JsonNumber real | JsonString string
| JsonArray "json list" | JsonObject "(string \<times> json) list"

text \<open>
  The library functions the profile manager calls are parameters: \<^verbatim>\<open>path.join\<close>,
  \<^verbatim>\<open>JSON.stringify(value, null, 2)\<close> and \<^verbatim>\<open>JSON.parse\<close> (\<open>Inl\<close>: the message of the
  \<^verbatim>\<open>SyntaxError\<close>). The type \<open>'c\<close> is that of the content of a file. The file system
  is a map from paths to contents; reading a path that has no file fails with the
  message of the platform for \<^verbatim>\<open>ENOENT\<close>. Other input/output failures are not modelled.
\<close>

record 'c runtime =
  path_join :: "string \<Rightarrow> string \<Rightarrow> string"
  JSON_stringify :: "json \<Rightarrow> 'c"
  JSON_parse :: "'c \<Rightarrow> string + json"

type_synonym 'c files = "string \<rightharpoonup> 'c"

definition readFile :: "'c files \<Rightarrow> string \<Rightarrow> jsError + 'c" where
  "readFile fs filePath =
     (case fs filePath of
        None \<Rightarrow>
          Inl (Error (''ENOENT: no such file or directory, open '' @ [CHR 0x27] @ filePath @
                      [CHR 0x27]))
      | Some content \<Rightarrow> Inr content)"

definition writeFile :: "'c files \<Rightarrow> string \<Rightarrow> 'c \<Rightarrow> 'c files" where
  "writeFile fs filePath content = fs(filePath \<mapsto> content)"

text \<open>
  \<^verbatim>\<open>profile.key\<close> for the keys that \<^verbatim>\<open>loadProfile\<close> reads (\<open>None\<close>: \<^verbatim>\<open>undefined\<close>; an object
  has each key once), and the truthiness of the result.
\<close>

fun getMember :: "json \<Rightarrow> string \<Rightarrow> json option" where
  "getMember (JsonObject members) key = map_of members key"
| "getMember v key = None"

fun truthyJson :: "json option \<Rightarrow> bool" where
  "truthyJson None = False"
| "truthyJson (Some JsonNull) = False"
| "truthyJson (Some (JsonBool b)) = b"
| "truthyJson (Some (JsonNumber n)) = (n \<noteq> 0)"
| "truthyJson (Some (JsonString s)) = (s \<noteq> [])"
| "truthyJson (Some (JsonArray xs)) = True"
| "truthyJson (Some (JsonObject members)) = True"

definition quoted :: "string \<Rightarrow> string" where
  "quoted s = [CHR 0x27] @ s @ [CHR 0x27]"

text \<open>
  \<^verbatim>\<open>saveProfile\<close> and \<^verbatim>\<open>loadProfile\<close> of the class \<^verbatim>\<open>ProfileManager\<close>, whose only field is
  \<^verbatim>\<open>profilesDir\<close>. In \<^verbatim>\<open>loadProfile\<close>, \<open>tried\<close> is the outcome of the \<^verbatim>\<open>try\<close> block and the
  rest is the \<^verbatim>\<open>catch\<close> block.
\<close>

definition saveProfile :: "'c runtime \<Rightarrow> 'c files \<Rightarrow> string \<Rightarrow> string \<Rightarrow> json \<Rightarrow> 'c files" where
  "saveProfile rt fs profilesDir profileName profile =
     (let filePath = path_join rt profilesDir (profileName @ ''.json'')
      in writeFile fs filePath (JSON_stringify rt profile))"

definition loadProfile :: "'c runtime \<Rightarrow> 'c files \<Rightarrow> string \<Rightarrow> string \<Rightarrow> jsError + json" where
  "loadProfile rt fs profilesDir profileName =
     (let filePath = path_join rt profilesDir (profileName @ ''.json'');
          tried =
            (case readFile fs filePath of
               Inl error \<Rightarrow> Inl error
             | Inr content \<Rightarrow>
                 (case JSON_parse rt content of
                    Inl message \<Rightarrow> Inl (SyntaxError message)
                  | Inr profile \<Rightarrow>
                      (if profile = JsonNull then
                         Inl (TypeError (''Cannot read properties of null (reading '' @
                                         quoted ''version'' @ '')''))
                       else if \<not> truthyJson (getMember profile ''version'') \<or>
                               \<not> truthyJson (getMember profile ''provider'') \<or>
                               \<not> truthyJson (getMember profile ''model'') \<or>
                               \<not> truthyJson (getMember profile ''modelParams'') \<or>
                               \<not> truthyJson (getMember profile ''ephemeralSettings'')
                       then Inl (Error ''missing required fields'')
                       else if getMember profile ''version'' \<noteq> Some (JsonNumber 1)
                       then Inl (Error ''unsupported profile version'')
                       else Inr profile)))
      in case tried of
           Inr profile \<Rightarrow> Inr profile
         | Inl error \<Rightarrow>
             (if str_includes (errorMessage error) ''ENOENT''
              then Inl (Error (''Profile '' @ quoted profileName @ '' not found''))
              else if instanceofSyntaxError error
              then Inl (Error (''Profile '' @ quoted profileName @ '' is corrupted''))
              else if errorMessage error = ''missing required fields''
              then Inl (Error (''Profile '' @ quoted profileName @
                               '' is invalid: missing required fields''))
              else Inl error))"

text \<open>
  A runtime for the examples: the content of a file is the JSON value that its text
  denotes, or a text that is not JSON.
\<close>

definition textRuntime :: "(json + string) runtime" where
  "textRuntime =
     \<lparr>path_join = (\<lambda>dir file. dir @ ''/'' @ file),
      JSON_stringify = Inl,
      JSON_parse = (\<lambda>content. case content of
                      Inl v \<Rightarrow> Inr v
                    | Inr text \<Rightarrow> Inl ''Unexpected token in JSON at position 0'')\<rparr>"

text \<open>
  The profiles that pass the checks of \<^verbatim>\<open>loadProfile\<close>, those that fail the first check,
  and the profile of the round-trip example.
\<close>

definition validProfile :: "json \<Rightarrow> bool" where
  "validProfile p \<longleftrightarrow>
     getMember p ''version'' = Some (JsonNumber 1) \<and>
     truthyJson (getMember p ''provider'') \<and> truthyJson (getMember p ''model'') \<and>
     truthyJson (getMember p ''modelParams'') \<and> truthyJson (getMember p ''ephemeralSettings'')"

definition demoProfile :: json where
  "demoProfile =
     JsonObject
       [(''version'', JsonNumber 1), (''provider'', JsonString ''openai''),
        (''model'', JsonString ''gpt-x''),
        (''modelParams'', JsonObject [(''temperature'', JsonNumber 0.2)]),
        (''ephemeralSettings'', JsonObject [(''base-url'', JsonString ''https://api.example'')])]"


definition missingRequiredField :: "json \<Rightarrow> bool" where
  "missingRequiredField profile \<longleftrightarrow>
     \<not> (truthyJson (getMember profile ''version'') \<and>
        truthyJson (getMember profile ''provider'') \<and>
        truthyJson (getMember profile ''model'') \<and>
        truthyJson (getMember profile ''modelParams'') \<and>
        truthyJson (getMember profile ''ephemeralSettings''))"

section \<open>The provider manager\<close>

text \<open>
  A provider is an object: its name, its identity (references are compared with
  \<^verbatim>\<open>!==\<close>), and whether it has a method \<^verbatim>\<open>clearState\<close>. The manager holds the map of
  providers in insertion order (a \<^verbatim>\<open>Map\<close>: the first key is the first one registered),
  the provider of the server tools, the key \<^verbatim>\<open>activeProvider\<close> of the settings service
  (\<open>None\<close>: \<^verbatim>\<open>undefined\<close>), and of the configuration the result of
  \<^verbatim>\<open>this.config?.getProvider?.()\<close> and the conversation-logging flag. Calls of
  \<^verbatim>\<open>clearState\<close> and provider-switch events are recorded.
\<close>

record provider =
  p_name :: string
  p_ident :: nat
  p_hasClearState :: bool

record providerManager =
  providers :: "(string \<times> provider) list"
  serverToolsProvider :: "provider option"
  settings_activeProvider :: "string option"
  config_getProvider :: "string option"
  config_loggingEnabled :: bool
  clearStateCalls :: "nat list"
  providerSwitchEvents :: "(string \<times> string) list"

text \<open>\<^verbatim>\<open>(value as string) || ''\<close>.\<close>

definition orEmpty :: "string option \<Rightarrow> string" where
  "orEmpty v = (case v of Some s \<Rightarrow> s | None \<Rightarrow> [])"

definition providers_has :: "providerManager \<Rightarrow> string \<Rightarrow> bool" where
  "providers_has m name \<longleftrightarrow> map_of (providers m) name \<noteq> None"

definition providers_get :: "providerManager \<Rightarrow> string \<Rightarrow> provider option" where
  "providers_get m name = map_of (providers m) name"

definition setActiveProvider :: "string \<Rightarrow> providerManager \<Rightarrow> jsError + providerManager" where
  "setActiveProvider name m =
     (if \<not> providers_has m name then Inl (Error ''Provider not found'')
      else
        (let previousProviderName = orEmpty (settings_activeProvider m);
             m1 =
               (if previousProviderName \<noteq> [] \<and> previousProviderName \<noteq> name then
                  (case providers_get m previousProviderName of
                     Some previousProvider \<Rightarrow>
                       (if map_option p_ident (serverToolsProvider m) \<noteq>
                             Some (p_ident previousProvider) \<and>
                           p_hasClearState previousProvider
                        then m\<lparr>clearStateCalls :=
                                 clearStateCalls m @ [p_ident previousProvider]\<rparr>
                        else m)
                   | None \<Rightarrow> m)
                else m);
             m2 =
               (if config_loggingEnabled m1 \<and> previousProviderName \<noteq> [] \<and>
                   previousProviderName \<noteq> name
                then m1\<lparr>providerSwitchEvents :=
                          providerSwitchEvents m1 @ [(previousProviderName, name)]\<rparr>
                else m1);
             m3 = m2\<lparr>settings_activeProvider := Some name\<rparr>
         in if name = ''gemini'' then
              (if serverToolsProvider m3 = None \<or>
                  map_option p_name (serverToolsProvider m3) \<noteq> Some ''gemini''
               then Inr (m3\<lparr>serverToolsProvider := providers_get m3 name\<rparr>)
               else Inr m3)
            else if serverToolsProvider m3 = None \<and> providers_has m3 ''gemini'' then
              Inr (m3\<lparr>serverToolsProvider := providers_get m3 ''gemini''\<rparr>)
            else Inr m3))"

definition clearActiveProvider :: "providerManager \<Rightarrow> providerManager" where
  "clearActiveProvider m = m\<lparr>settings_activeProvider := Some []\<rparr>"

text \<open>\<^verbatim>\<open>String(error)\<close>.\<close>

fun String_error :: "jsError \<Rightarrow> string" where
  "String_error (Error msg) = ''Error: '' @ msg"
| "String_error (SyntaxError msg) = ''SyntaxError: '' @ msg"
| "String_error (TypeError msg) = ''TypeError: '' @ msg"

text \<open>
  \<^verbatim>\<open>getActiveProvider\<close>: \<open>written\<close> is the state after the block that calls
  \<^verbatim>\<open>setActiveProvider\<close> for a name resolved by a fallback.
\<close>

definition getActiveProvider :: "providerManager \<Rightarrow> jsError + provider \<times> providerManager" where
  "getActiveProvider m =
     (let activeProviderName = orEmpty (settings_activeProvider m);
          resolvedName =
            (if activeProviderName \<noteq> [] then activeProviderName
             else
               (let preferredFromConfig = config_getProvider m
                in if orEmpty preferredFromConfig \<noteq> [] \<and>
                      providers_has m (orEmpty preferredFromConfig)
                   then orEmpty preferredFromConfig
                   else if providers_has m ''openai'' then ''openai''
                   else (case providers m of [] \<Rightarrow> [] | (key, p) # rest \<Rightarrow> key)));
          written =
            (if activeProviderName = [] \<and> resolvedName \<noteq> [] then
               (case setActiveProvider resolvedName m of
                  Inl error \<Rightarrow>
                    Inl (Error (''Unable to set default provider '' @ quoted resolvedName @
                                '': '' @ String_error error))
                | Inr m' \<Rightarrow> Inr m')
             else Inr m)
      in case written of
           Inl error \<Rightarrow> Inl error
         | Inr m' \<Rightarrow>
             (if resolvedName = [] then Inl (Error ''No active provider set'')
              else
                (case providers_get m' resolvedName of
                   None \<Rightarrow> Inl (Error ''Active provider not found'')
                 | Some provider \<Rightarrow> Inr (provider, m'))))"

text \<open>
  The conditions of the ladder, in the words of the specification: no active provider in
  the settings; the provider of the configuration is registered.
\<close>

definition activeProviderUnset :: "providerManager \<Rightarrow> bool" where
  "activeProviderUnset m \<longleftrightarrow> orEmpty (settings_activeProvider m) = []"

definition configProviderRegistered :: "providerManager \<Rightarrow> bool" where
  "configProviderRegistered m \<longleftrightarrow>
     orEmpty (config_getProvider m) \<noteq> [] \<and> providers_has m (orEmpty (config_getProvider m))"

section \<open>Theorems\<close>

subsection \<open>Numbers\<close>

lemma pow2_powr: "pow2 e = 2 powr (real_of_int e)"
  by (simp add: pow2_def powr_int)

lemma pow2_pos: "0 < pow2 e"
  by (simp add: pow2_powr)

lemma pow2_mono: "a \<le> b \<Longrightarrow> pow2 a \<le> pow2 b"
  by (simp add: pow2_powr)

lemma pow2_nat: "pow2 (int k) = 2 ^ k"
  by (simp add: pow2_def)

lemma binaryExponent_eq:
  assumes "pow2 k \<le> \<bar>x\<bar>" "\<bar>x\<bar> < pow2 (k + 1)"
  shows "binaryExponent x = k"
proof -
  have "0 < \<bar>x\<bar>" using assms(1) pow2_pos [of k] by linarith
  then show ?thesis
    unfolding binaryExponent_def
    using assms by (simp add: floor_log_eq_powr_iff pow2_powr)
qed

lemma binaryExponent_bounds:
  assumes "x \<noteq> 0"
  shows "pow2 (binaryExponent x) \<le> \<bar>x\<bar> \<and> \<bar>x\<bar> < pow2 (binaryExponent x + 1)"
proof -
  have "0 < \<bar>x\<bar>" using assms by simp
  then show ?thesis
    using floor_log_eq_powr_iff [of "\<bar>x\<bar>" 2 "binaryExponent x"]
    by (simp add: binaryExponent_def pow2_powr)
qed

lemma roundHalfEven_int: "roundHalfEven (of_int m) = m"
  by (simp add: roundHalfEven_def)

lemma roundHalfEven_nonneg: "0 \<le> y \<Longrightarrow> 0 \<le> roundHalfEven y"
  by (auto simp: roundHalfEven_def Let_def)

lemma toDouble_exact:
  assumes int: "x = of_int n" and le: "\<bar>x\<bar> \<le> 2 ^ 53"
  shows "toDouble x = Num x"
proof (cases "x = 0")
  case True
  then show ?thesis by (simp add: toDouble_def)
next
  case False
  define L where "L = binaryExponent x"
  have b: "pow2 L \<le> \<bar>x\<bar>" "\<bar>x\<bar> < pow2 (L + 1)"
    using binaryExponent_bounds [OF False] by (simp_all add: L_def)
  have one: "1 \<le> \<bar>x\<bar>"
  proof -
    have "n \<noteq> 0" using False int by auto
    then have "1 \<le> \<bar>n\<bar>" by simp
    then show ?thesis using int by simp
  qed
  have L0: "0 \<le> L"
  proof (rule ccontr)
    assume "\<not> 0 \<le> L"
    then have "L + 1 \<le> 0" by simp
    then have "pow2 (L + 1) \<le> pow2 0" by (rule pow2_mono)
    then show False using b(2) one by (simp add: pow2_def)
  qed
  have L53: "L \<le> 53"
  proof (rule ccontr)
    assume "\<not> L \<le> 53"
    then have "54 \<le> L" by simp
    then have "pow2 54 \<le> pow2 L" by (rule pow2_mono)
    then show False using b(1) le by (simp add: pow2_def)
  qed
  define e where "e = max (L - 52) (- 1074)"
  have e: "e = L - 52" using L0 by (simp add: e_def)
  have ex: "\<exists>m. x / pow2 e = of_int m"
  proof (cases "e \<le> 0")
    case True
    then have "pow2 e = 1 / 2 ^ nat (- e)"
      by (cases "e = 0") (simp_all add: pow2_def)
    then have "x / pow2 e = of_int (n * 2 ^ nat (- e))" using int by simp
    then show ?thesis by blast
  next
    case False
    then have "L = 53" using e L53 by simp
    then have "2 ^ 53 \<le> \<bar>x\<bar>" using b(1) by (simp add: pow2_def)
    then have "\<bar>x\<bar> = 2 ^ 53" using le by simp
    then have "x = 2 ^ 53 \<or> x = - (2 ^ 53)" by linarith
    moreover have "pow2 e = 2" using \<open>L = 53\<close> e by (simp add: pow2_def)
    ultimately have "x / pow2 e = of_int (2 ^ 52) \<or> x / pow2 e = of_int (- (2 ^ 52))"
      by auto
    then show ?thesis by blast
  qed
  then obtain m where m: "x / pow2 e = of_int m" by blast
  have r: "of_int (roundHalfEven (x / pow2 e)) * pow2 e = x"
    using m pow2_pos [of e] by (simp add: roundHalfEven_int nonzero_divide_eq_eq)
  have "\<not> 2 ^ 1024 \<le> \<bar>x\<bar>"
  proof -
    have "(2::real) ^ 53 < 2 ^ 1024" by (rule power_strict_increasing) simp_all
    then show ?thesis using le by linarith
  qed
  then show ?thesis
    using False r by (simp add: toDouble_def Let_def e_def [symmetric] L_def [symmetric])
qed


lemma toDouble_Ints: "x \<in> \<int> \<Longrightarrow> \<bar>x\<bar> \<le> 2 ^ 53 \<Longrightarrow> toDouble x = Num x"
  by (auto elim!: Ints_cases intro: toDouble_exact)

lemma toDouble_nonneg: "0 \<le> x \<Longrightarrow> nonNegative (toDouble x)"
proof (cases "x = 0")
  case True
  then show ?thesis by (simp add: toDouble_def)
next
  case False
  assume "0 \<le> x"
  then have "0 \<le> x / pow2 e" for e using pow2_pos [of e] by simp
  then have "0 \<le> real_of_int (roundHalfEven (x / pow2 e)) * pow2 e" for e
    using roundHalfEven_nonneg pow2_pos [of e] by simp
  then show ?thesis using False \<open>0 \<le> x\<close> by (simp add: toDouble_def Let_def)
qed

lemma toDouble_normal:
  assumes lo: "2 ^ k \<le> \<bar>x\<bar>" and hi: "\<bar>x\<bar> < 2 ^ Suc k" and k: "52 \<le> k"
  shows "toDouble x =
     (if 2 ^ 1024 \<le> \<bar>real_of_int (roundHalfEven (x / 2 ^ (k - 52))) * 2 ^ (k - 52)\<bar>
      then (if 0 < x then PosInfinity else NegInfinity)
      else Num (real_of_int (roundHalfEven (x / 2 ^ (k - 52))) * 2 ^ (k - 52)))"
proof -
  have "pow2 (int k) \<le> \<bar>x\<bar>" "\<bar>x\<bar> < pow2 (int k + 1)"
    using lo hi by (simp_all add: pow2_def nat_add_distrib)
  then have e: "binaryExponent x = int k" by (rule binaryExponent_eq)
  have "x \<noteq> 0"
  proof
    assume "x = 0"
    then have "(2::real) ^ k \<le> 0" using lo by simp
    moreover have "(0::real) < 2 ^ k" by simp
    ultimately show False by linarith
  qed
  note this
  moreover have "max (int k - 52) (- 1074) = int (k - 52)" using k by simp
  ultimately show ?thesis
    by (simp add: toDouble_def e pow2_nat Let_def del: of_nat_diff)
qed

lemma toDouble_tie: "toDouble 9007199254740993 = Num 9007199254740992"
  using toDouble_normal [of 53 9007199254740993]
  by (simp add: roundHalfEven_def)

lemma toDouble_next: "toDouble 9007199254740994 = Num 9007199254740994"
  using toDouble_normal [of 53 9007199254740994]
  by (simp add: roundHalfEven_def)

subsection \<open>Session token accumulator\<close>

lemma jsAdd_nonneg: "nonNegative a \<Longrightarrow> nonNegative b \<Longrightarrow> nonNegative (jsAdd a b)"
  by (cases a; cases b) (simp_all add: toDouble_nonneg)

lemma clamp_nonneg: "nonNegative (mathMax0 (orZero c))"
proof (cases c)
  case None
  then show ?thesis by simp
next
  case (Some v)
  then show ?thesis by (cases v) simp_all
qed

lemma accumulate_nonneg:
  "componentsNonNegative s \<Longrightarrow> componentsNonNegative (accumulateSessionTokens n u s)"
  by (simp add: componentsNonNegative_def accumulateSessionTokens_def jsAdd_nonneg clamp_nonneg)

lemma accumulateAll_nonneg:
  "componentsNonNegative s \<Longrightarrow> componentsNonNegative (accumulateAll calls s)"
proof (induction calls arbitrary: s)
  case Nil
  then show ?case by simp
next
  case (Cons call calls)
  obtain n u where "call = (n, u)" by (cases call)
  then show ?case using Cons accumulate_nonneg by simp
qed

lemma orZero_nonneg: "nonNegative x \<Longrightarrow> nonNegative (orZero (Some x))"
  by (cases x) simp_all

lemma get_nonneg:
  "componentsNonNegative s \<Longrightarrow> componentsNonNegative (getSessionTokenUsage s)"
  by (simp add: componentsNonNegative_def getSessionTokenUsage_def orZero_nonneg)

lemma clamp_count:
  "integralComponent c \<Longrightarrow>
   mathMax0 (orZero c) = Num (countOf c) \<and> countOf c \<in> \<int> \<and> 0 \<le> countOf c"
proof (cases c)
  case None
  then show ?thesis by simp
next
  case (Some v)
  assume "integralComponent c"
  then show ?thesis using Some by (cases v) (auto simp: max_def)
qed

lemma jsAdd_exact:
  "a \<in> \<int> \<Longrightarrow> b \<in> \<int> \<Longrightarrow> 0 \<le> a \<Longrightarrow> 0 \<le> b \<Longrightarrow> a + b \<le> 2 ^ 53 \<Longrightarrow>
   jsAdd (Num a) (Num b) = Num (a + b)"
  by (simp add: toDouble_Ints)

lemma accumulate_exact:
  assumes s: "exactState s T" and u: "integralUsage u" and le: "T + usageTotal u \<le> 2 ^ 53"
  shows "exactState (accumulateSessionTokens n u s) (T + usageTotal u)"
proof -
  obtain i o' c t th where f:
      "i \<in> \<int>" "o' \<in> \<int>" "c \<in> \<int>" "t \<in> \<int>" "th \<in> \<int>"
      "0 \<le> i" "0 \<le> o'" "0 \<le> c" "0 \<le> t" "0 \<le> th"
      "T = i + o' + c + t + th"
      "s = \<lparr>s_input = Num i, s_output = Num o', s_cache = Num c, s_tool = Num t,
             s_thought = Num th, s_total = Num T\<rparr>"
    using s unfolding exactState_def by blast
  define a1 where "a1 = countOf (u_input u)"
  define a2 where "a2 = countOf (u_output u)"
  define a3 where "a3 = countOf (u_cache u)"
  define a4 where "a4 = countOf (u_tool u)"
  define a5 where "a5 = countOf (u_thought u)"
  have c1: "mathMax0 (orZero (u_input u)) = Num a1" "a1 \<in> \<int>" "0 \<le> a1"
    using clamp_count [of "u_input u"] u by (simp_all add: integralUsage_def a1_def)
  have c2: "mathMax0 (orZero (u_output u)) = Num a2" "a2 \<in> \<int>" "0 \<le> a2"
    using clamp_count [of "u_output u"] u by (simp_all add: integralUsage_def a2_def)
  have c3: "mathMax0 (orZero (u_cache u)) = Num a3" "a3 \<in> \<int>" "0 \<le> a3"
    using clamp_count [of "u_cache u"] u by (simp_all add: integralUsage_def a3_def)
  have c4: "mathMax0 (orZero (u_tool u)) = Num a4" "a4 \<in> \<int>" "0 \<le> a4"
    using clamp_count [of "u_tool u"] u by (simp_all add: integralUsage_def a4_def)
  have c5: "mathMax0 (orZero (u_thought u)) = Num a5" "a5 \<in> \<int>" "0 \<le> a5"
    using clamp_count [of "u_thought u"] u by (simp_all add: integralUsage_def a5_def)
  have ut: "usageTotal u = a1 + a2 + a3 + a4 + a5"
    by (simp add: usageTotal_def a1_def a2_def a3_def a4_def a5_def)
  have bound: "i + o' + c + t + th + (a1 + a2 + a3 + a4 + a5) \<le> 2 ^ 53"
    using le f(11) ut by simp
  have s12: "jsAdd (Num a1) (Num a2) = Num (a1 + a2)"
    using c1 c2 c3 c4 c5 f bound by (intro jsAdd_exact) simp_all
  have s123: "jsAdd (Num (a1 + a2)) (Num a3) = Num (a1 + a2 + a3)"
    using c1 c2 c3 c4 c5 f bound by (intro jsAdd_exact) simp_all
  have s1234: "jsAdd (Num (a1 + a2 + a3)) (Num a4) = Num (a1 + a2 + a3 + a4)"
    using c1 c2 c3 c4 c5 f bound by (intro jsAdd_exact) simp_all
  have s12345: "jsAdd (Num (a1 + a2 + a3 + a4)) (Num a5) = Num (a1 + a2 + a3 + a4 + a5)"
    using c1 c2 c3 c4 c5 f bound by (intro jsAdd_exact) simp_all
  have tot: "jsAdd (Num T) (Num (a1 + a2 + a3 + a4 + a5)) = Num (T + (a1 + a2 + a3 + a4 + a5))"
    using c1 c2 c3 c4 c5 f bound by (intro jsAdd_exact) simp_all
  have n1: "jsAdd (Num i) (Num a1) = Num (i + a1)"
    using c1 c2 c3 c4 c5 f bound by (intro jsAdd_exact) simp_all
  have n2: "jsAdd (Num o') (Num a2) = Num (o' + a2)"
    using c1 c2 c3 c4 c5 f bound by (intro jsAdd_exact) simp_all
  have n3: "jsAdd (Num c) (Num a3) = Num (c + a3)"
    using c1 c2 c3 c4 c5 f bound by (intro jsAdd_exact) simp_all
  have n4: "jsAdd (Num t) (Num a4) = Num (t + a4)"
    using c1 c2 c3 c4 c5 f bound by (intro jsAdd_exact) simp_all
  have n5: "jsAdd (Num th) (Num a5) = Num (th + a5)"
    using c1 c2 c3 c4 c5 f bound by (intro jsAdd_exact) simp_all
  have new: "accumulateSessionTokens n u s =
      \<lparr>s_input = Num (i + a1), s_output = Num (o' + a2), s_cache = Num (c + a3),
       s_tool = Num (t + a4), s_thought = Num (th + a5),
       s_total = Num (T + (a1 + a2 + a3 + a4 + a5))\<rparr>"
    unfolding accumulateSessionTokens_def f(12)
    by (simp add: c1(1) c2(1) c3(1) c4(1) c5(1) s12 s123 s1234 s12345 tot n1 n2 n3 n4 n5
        del: jsAdd.simps)
  show ?thesis
    unfolding exactState_def new ut
    using f c1 c2 c3 c4 c5
    by (intro exI [of _ "i + a1"] exI [of _ "o' + a2"] exI [of _ "c + a3"]
        exI [of _ "t + a4"] exI [of _ "th + a5"]) simp
qed

lemma usageTotal_nonneg: "0 \<le> usageTotal u"
proof -
  have "0 \<le> countOf c" for c
  proof (cases c)
    case None
    then show ?thesis by simp
  next
    case (Some v)
    then show ?thesis by (cases v) simp_all
  qed
  then show ?thesis by (simp add: usageTotal_def)
qed

lemma tokensOf_nonneg: "0 \<le> tokensOf calls"
proof (induction calls)
  case Nil
  then show ?case by simp
next
  case (Cons call calls)
  obtain n u where "call = (n, u)" by (cases call)
  then show ?case using Cons usageTotal_nonneg [of u] by simp
qed

lemma accumulateAll_exact:
  "exactState s T \<Longrightarrow> list_all (\<lambda>(n, u). integralUsage u) calls \<Longrightarrow>
   T + tokensOf calls \<le> 2 ^ 53 \<Longrightarrow>
   exactState (accumulateAll calls s) (T + tokensOf calls)"
proof (induction calls arbitrary: s T)
  case Nil
  then show ?case by simp
next
  case (Cons call calls)
  obtain n u where call: "call = (n, u)" by (cases call)
  have u: "integralUsage u" and rest: "list_all (\<lambda>(n, u). integralUsage u) calls"
    using Cons.prems(2) call by simp_all
  have le: "T + usageTotal u + tokensOf calls \<le> 2 ^ 53"
    using Cons.prems(3) call by (simp add: add.assoc)
  then have "T + usageTotal u \<le> 2 ^ 53" using tokensOf_nonneg [of calls] by linarith
  with Cons.prems(1) u have "exactState (accumulateSessionTokens n u s) (T + usageTotal u)"
    by (rule accumulate_exact)
  then have "exactState (accumulateAll calls (accumulateSessionTokens n u s))
      (T + usageTotal u + tokensOf calls)"
    using rest le by (rule Cons.IH)
  then show ?case using call by (simp add: add.assoc)
qed

lemma exactState_totalIsSum: "exactState s T \<Longrightarrow> totalIsSum (getSessionTokenUsage s)"
  unfolding exactState_def totalIsSum_def
  by (auto simp: getSessionTokenUsage_def)

text \<open>
  C10 (amended). Starting from a fresh manager or from any \<^verbatim>\<open>resetSessionTokenUsage\<close>,
  after every sequence of \<^verbatim>\<open>accumulateSessionTokens\<close> calls, with components that may
  be negative, fractional, infinite or missing, every component reported by
  \<^verbatim>\<open>getSessionTokenUsage\<close> is non-negative; and when the components are integers (or
  missing) and the tokens of all the calls together are at most \<open>2 ^ 53\<close>, the total is
  the sum input + output + cache + tool + thought.
\<close>

theorem session_token_usage_invariant:
  "componentsNonNegative (getSessionTokenUsage (accumulateAll calls initialSessionTokenUsage)) \<and>
   componentsNonNegative
     (getSessionTokenUsage (accumulateAll calls (resetSessionTokenUsage s))) \<and>
   (list_all (\<lambda>(n, u). integralUsage u) calls \<and> tokensOf calls \<le> 2 ^ 53 \<longrightarrow>
      totalIsSum (getSessionTokenUsage (accumulateAll calls initialSessionTokenUsage)) \<and>
      totalIsSum (getSessionTokenUsage (accumulateAll calls (resetSessionTokenUsage s))))"
proof -
  have n: "componentsNonNegative initialSessionTokenUsage"
    "componentsNonNegative (resetSessionTokenUsage s)"
    by (simp_all add: componentsNonNegative_def initialSessionTokenUsage_def
        resetSessionTokenUsage_def)
  have e: "exactState initialSessionTokenUsage 0" "exactState (resetSessionTokenUsage s) 0"
    by (simp_all add: exactState_def initialSessionTokenUsage_def resetSessionTokenUsage_def)
  have "totalIsSum (getSessionTokenUsage (accumulateAll calls s0))"
    if "exactState s0 0" "list_all (\<lambda>(n, u). integralUsage u) calls"
      "tokensOf calls \<le> 2 ^ 53" for s0
    using accumulateAll_exact [of s0 0 calls] that exactState_totalIsSum by simp
  then show ?thesis
    using n e by (simp add: get_nonneg accumulateAll_nonneg)
qed

theorem session_token_usage_invariant_witness:
  "totalIsSum
     (getSessionTokenUsage
        (accumulateAll
           [(''openai'',
             \<lparr>u_input = Some (Num 3), u_output = Some (Num 2), u_cache = None,
              u_tool = Some (Num (- 4)), u_thought = Some NaN\<rparr>),
            (''openai'',
             \<lparr>u_input = Some (Num 10), u_output = None, u_cache = Some (Num 1),
              u_tool = Some (Num 0), u_thought = Some (Num 7)\<rparr>)]
           initialSessionTokenUsage))"
proof -
  let ?calls = "[(''openai'',
             \<lparr>u_input = Some (Num 3), u_output = Some (Num 2), u_cache = None,
              u_tool = Some (Num (- 4)), u_thought = Some NaN\<rparr>),
            (''openai'',
             \<lparr>u_input = Some (Num 10), u_output = None, u_cache = Some (Num 1),
              u_tool = Some (Num 0), u_thought = Some (Num 7)\<rparr>)]"
  have 1: "list_all (\<lambda>(n, u). integralUsage u) ?calls"
    by (simp add: integralUsage_def)
  have 2: "tokensOf ?calls \<le> 2 ^ 53"
    by (simp add: usageTotal_def)
  show ?thesis
    using session_token_usage_invariant [of ?calls initialSessionTokenUsage] 1 2 by blast
qed

text \<open>
  C10 as stated fails: after an input of \<open>2 ^ 53\<close> tokens, a call with one input and one
  output token leaves the input counter where it was, since \<open>2 ^ 53 + 1\<close> is not a
  double, while the total grows by 2.
\<close>

theorem session_token_usage_counterexample:
  "getSessionTokenUsage
     (accumulateAll
        [(''openai'',
          \<lparr>u_input = Some (Num 9007199254740992), u_output = None, u_cache = None,
           u_tool = None, u_thought = None\<rparr>),
         (''openai'',
          \<lparr>u_input = Some (Num 1), u_output = Some (Num 1), u_cache = None,
           u_tool = None, u_thought = None\<rparr>)]
        initialSessionTokenUsage) =
   \<lparr>s_input = Num 9007199254740992, s_output = Num 1, s_cache = Num 0, s_tool = Num 0,
    s_thought = Num 0, s_total = Num 9007199254740994\<rparr> \<and>
   (9007199254740994 :: real) \<noteq> 9007199254740992 + 1 + 0 + 0 + 0"
proof -
  have small: "toDouble 0 = Num 0" "toDouble 1 = Num 1" "toDouble 2 = Num 2"
    "toDouble 9007199254740992 = Num 9007199254740992"
    by (simp_all add: toDouble_Ints)
  show ?thesis
    by (simp add: accumulateSessionTokens_def initialSessionTokenUsage_def
        getSessionTokenUsage_def small toDouble_tie toDouble_next)
qed

subsection \<open>The retry engine\<close>

declare retryLoop.simps [simp del]

















text \<open>One iteration of the loop, case by case.\<close>

lemma retryLoop_success:
  "int (attempt st) < maxAttempts opts \<Longrightarrow> w_fn w (attempt st) = Inr v \<Longrightarrow>
   retryLoop w opts track st = (Returned v, st\<lparr>attempt := attempt st + 1\<rparr>)"
  by (simp add: retryLoop.simps [of w opts track st])

lemma retryLoop_rethrow:
  "int (attempt st) < maxAttempts opts \<Longrightarrow> w_fn w (attempt st) = Inl e \<Longrightarrow>
   maxAttempts opts \<le> int (attempt st) + 1 \<or> shouldRetry opts e = Inr False \<Longrightarrow>
   retryLoop w opts track st = (Thrown e, st\<lparr>attempt := attempt st + 1\<rparr>)"
  by (auto simp add: retryLoop.simps [of w opts track st] Let_def)

lemma retryLoop_explicit:
  "w_fn w (attempt st) = Inl e \<Longrightarrow> int (attempt st) + 1 < maxAttempts opts \<Longrightarrow>
   shouldRetry opts e = Inr True \<Longrightarrow>
   d = fst (getDelayDurationAndStatus (w_heap w) (w_parseDate w) (w_now w (attempt st)) e) \<Longrightarrow>
   jsPositive d \<Longrightarrow>
   retryLoop w opts track st =
   retryLoop w opts track
     (st\<lparr>attempt := attempt st + 1, waits := waits st @ [ExplicitWait d],
         tracked := (if track then tracked st @ [d] else tracked st),
         currentDelay := initialDelayMs opts\<rparr>)"
  by (simp add: retryLoop.simps [of w opts track st] Let_def)

lemma retryLoop_backoff:
  "w_fn w (attempt st) = Inl e \<Longrightarrow> int (attempt st) + 1 < maxAttempts opts \<Longrightarrow>
   shouldRetry opts e = Inr True \<Longrightarrow>
   \<not> jsPositive
       (fst (getDelayDurationAndStatus (w_heap w) (w_parseDate w) (w_now w (attempt st)) e)) \<Longrightarrow>
   retryLoop w opts track st =
   (case logRetryAttempt (w_heap w) e (getErrorStatus (w_heap w) e) of
      Some raised \<Rightarrow> (ThrownError raised, st\<lparr>attempt := attempt st + 1\<rparr>)
    | None \<Rightarrow>
        retryLoop w opts track
          (st\<lparr>attempt := attempt st + 1,
              waits := waits st @ [BackoffWait (max 0 (currentDelay st + jitterOf w st))],
              tracked :=
                (if track then tracked st @ [Num (max 0 (currentDelay st + jitterOf w st))]
                 else tracked st),
              draws := draws st + 1,
              currentDelay := min (maxDelayMs opts) (currentDelay st * 2)\<rparr>))"
  by (simp add: retryLoop.simps [of w opts track st] Let_def jitterOf_def
      split: option.splits)

lemma retryLoop_retry:
  assumes "retried w (shouldRetry opts) (attempt st)"
    "int (attempt st) + 1 < maxAttempts opts"
  shows "\<exists>st'. retryLoop w opts track st = retryLoop w opts track st' \<and>
         attempt st' = attempt st + 1"
proof -
  obtain e where e: "w_fn w (attempt st) = Inl e" "shouldRetry opts e = Inr True"
    and reach: "jsPositive (fst (getDelayDurationAndStatus (w_heap w) (w_parseDate w)
        (w_now w (attempt st)) e)) \<or>
      logRetryAttempt (w_heap w) e (getErrorStatus (w_heap w) e) = None"
    using assms(1) by (auto simp: retried_def split: sum.splits)
  show ?thesis
  proof (cases "jsPositive (fst (getDelayDurationAndStatus (w_heap w) (w_parseDate w)
      (w_now w (attempt st)) e))")
    case True
    show ?thesis
      using retryLoop_explicit [OF e(1) assms(2) e(2) refl True, of track]
      by (intro exI conjI, assumption) simp
  next
    case False
    then have "logRetryAttempt (w_heap w) e (getErrorStatus (w_heap w) e) = None"
      using reach by simp
    then show ?thesis
      using retryLoop_backoff [OF e(1) assms(2) e(2) False, of track]
      by (intro exI conjI, simp) simp
  qed
qed

lemma retryLoop_skip_failures:
  "\<forall>j. attempt st \<le> j \<and> j < k \<longrightarrow> retried w (shouldRetry opts) j \<Longrightarrow>
   attempt st \<le> k \<Longrightarrow> int k < maxAttempts opts \<Longrightarrow>
   \<exists>st'. retryLoop w opts track st = retryLoop w opts track st' \<and> attempt st' = k"
proof (induction "k - attempt st" arbitrary: st)
  case 0
  then have "attempt st = k" by simp
  then show ?case by blast
next
  case (Suc d)
  then have lt: "attempt st < k" by simp
  then have e: "retried w (shouldRetry opts) (attempt st)"
    using Suc.prems(1) by blast
  have "int (attempt st) + 1 < maxAttempts opts" using lt Suc.prems(3) by simp
  then obtain st1 where st1: "retryLoop w opts track st = retryLoop w opts track st1"
      "attempt st1 = attempt st + 1"
    using retryLoop_retry [OF e] by blast
  have "d = k - attempt st1" using Suc.hyps(2) st1(2) by simp
  moreover have "\<forall>j. attempt st1 \<le> j \<and> j < k \<longrightarrow> retried w (shouldRetry opts) j"
    using Suc.prems(1) st1(2) by simp
  moreover have "attempt st1 \<le> k" using lt st1(2) by simp
  ultimately obtain st' where "retryLoop w opts track st1 = retryLoop w opts track st'"
      "attempt st' = k"
    using Suc.hyps(1) Suc.prems(3) by blast
  then show ?case using st1(1) by auto
qed

text \<open>
  The options the loop runs with, read off the caller's object: a key that is present
  with a value overrides the default, a key that is absent leaves it.
\<close>

lemma retryWithBackoff_run:
  assumes attempts:
      "(case options of None \<Rightarrow> Absent | Some p \<Rightarrow> p_maxAttempts p) = Present n \<or>
       (case options of None \<Rightarrow> Absent | Some p \<Rightarrow> p_maxAttempts p) = Absent \<and> n = 5"
    and predicate:
      "(case options of None \<Rightarrow> Absent | Some p \<Rightarrow> p_shouldRetry p) = Present sr \<or>
       (case options of None \<Rightarrow> Absent | Some p \<Rightarrow> p_shouldRetry p) = Absent \<and>
       sr = defaultShouldRetry (w_heap w)"
    and i: "i = m_initialDelayMs (mergeOptions (DEFAULT_RETRY_OPTIONS (w_heap w)) options)"
    and m: "m = m_maxDelayMs (mergeOptions (DEFAULT_RETRY_OPTIONS (w_heap w)) options)"
    and track: "track = (case options of Some p \<Rightarrow> p_trackThrottleWaitTime p | None \<Rightarrow> False)"
  shows "retryWithBackoff w options =
         retryLoop w \<lparr>maxAttempts = n, initialDelayMs = i, maxDelayMs = m, shouldRetry = sr\<rparr>
           track \<lparr>attempt = 0, currentDelay = i, waits = [], tracked = [], draws = 0\<rparr>"
proof (cases options)
  case None
  then show ?thesis
    using attempts predicate i m track
    by (simp add: retryWithBackoff_def mergeOptions_def DEFAULT_RETRY_OPTIONS_def Let_def)
next
  case (Some p)
  then have a: "p_maxAttempts p = Present n \<or> p_maxAttempts p = Absent \<and> n = 5"
    and s: "p_shouldRetry p = Present sr \<or>
      p_shouldRetry p = Absent \<and> sr = defaultShouldRetry (w_heap w)"
    using attempts predicate by simp_all
  from a s show ?thesis
    using i m track
    by (auto simp add: retryWithBackoff_def mergeOptions_def DEFAULT_RETRY_OPTIONS_def Let_def
        Some)
qed

text \<open>
  C3. Let the caller's options give \<open>n\<close> attempts and the predicate \<open>sr\<close> (the value of a
  key that is present, or the default, 5 attempts and \<^verbatim>\<open>defaultShouldRetry\<close>, for a key
  that is absent). \<^verbatim>\<open>retryWithBackoff\<close> returns the value of the first invocation of \<^verbatim>\<open>fn\<close>
  that succeeds (every earlier invocation having failed with an error that is retried,
  within the attempts allowed); an invocation that fails with an error for which \<open>sr\<close>
  returns false, or on the last attempt allowed, has its error re-raised; with
  \<^verbatim>\<open>maxAttempts = 1\<close> the error of the single invocation is re-raised, whatever the error
  and the predicate, and \<^verbatim>\<open>fn\<close> is called once. The attempt counter of the final state is
  the number of invocations made.
\<close>

theorem retryWithBackoff_result:
  assumes attempts:
      "(case options of None \<Rightarrow> Absent | Some p \<Rightarrow> p_maxAttempts p) = Present n \<or>
       (case options of None \<Rightarrow> Absent | Some p \<Rightarrow> p_maxAttempts p) = Absent \<and> n = 5"
    and predicate:
      "(case options of None \<Rightarrow> Absent | Some p \<Rightarrow> p_shouldRetry p) = Present sr \<or>
       (case options of None \<Rightarrow> Absent | Some p \<Rightarrow> p_shouldRetry p) = Absent \<and>
       sr = defaultShouldRetry (w_heap w)"
    and before: "\<forall>j<k. retried w sr j"
    and k: "int k < n"
  shows "(w_fn w k = Inr v \<longrightarrow>
            fst (retryWithBackoff w options) = Returned v \<and>
            attempt (snd (retryWithBackoff w options)) = k + 1) \<and>
         (w_fn w k = Inl e \<and> (sr e = Inr False \<or> n \<le> int k + 1) \<longrightarrow>
            fst (retryWithBackoff w options) = Thrown e \<and>
            attempt (snd (retryWithBackoff w options)) = k + 1) \<and>
         (n = 1 \<and> w_fn w 0 = Inl e' \<longrightarrow>
            fst (retryWithBackoff w options) = Thrown e' \<and>
            attempt (snd (retryWithBackoff w options)) = 1)"
proof -
  define i where
    "i = m_initialDelayMs (mergeOptions (DEFAULT_RETRY_OPTIONS (w_heap w)) options)"
  define m where
    "m = m_maxDelayMs (mergeOptions (DEFAULT_RETRY_OPTIONS (w_heap w)) options)"
  define track where
    "track = (case options of Some p \<Rightarrow> p_trackThrottleWaitTime p | None \<Rightarrow> False)"
  have run: "retryWithBackoff w options =
      retryLoop w \<lparr>maxAttempts = n, initialDelayMs = i, maxDelayMs = m, shouldRetry = sr\<rparr>
        track \<lparr>attempt = 0, currentDelay = i, waits = [], tracked = [], draws = 0\<rparr>"
    using attempts predicate i_def m_def track_def by (rule retryWithBackoff_run)
  define opts where
    "opts = \<lparr>maxAttempts = n, initialDelayMs = i, maxDelayMs = m, shouldRetry = sr\<rparr>"
  define st0 where
    "st0 = \<lparr>attempt = 0, currentDelay = i, waits = [], tracked = [], draws = 0\<rparr>"
  have run': "retryWithBackoff w options = retryLoop w opts track st0"
    using run by (simp add: opts_def st0_def)
  have o: "maxAttempts opts = n" "shouldRetry opts = sr" by (simp_all add: opts_def)
  have "\<forall>j. attempt st0 \<le> j \<and> j < k \<longrightarrow> retried w (shouldRetry opts) j"
    using before o by simp
  moreover have "attempt st0 \<le> k" by (simp add: st0_def)
  ultimately obtain st' where st': "retryLoop w opts track st0 = retryLoop w opts track st'"
      "attempt st' = k"
    using retryLoop_skip_failures k o by blast
  have a: "w_fn w k = Inr v \<longrightarrow>
            fst (retryWithBackoff w options) = Returned v \<and>
            attempt (snd (retryWithBackoff w options)) = k + 1"
    using retryLoop_success [of st' opts w v track] st' k run' o by simp
  have b: "w_fn w k = Inl e \<and> (sr e = Inr False \<or> n \<le> int k + 1) \<longrightarrow>
            fst (retryWithBackoff w options) = Thrown e \<and>
            attempt (snd (retryWithBackoff w options)) = k + 1"
    using retryLoop_rethrow [of st' opts w e track] st' k run' o by auto
  have c: "n = 1 \<and> w_fn w 0 = Inl e' \<longrightarrow>
            fst (retryWithBackoff w options) = Thrown e' \<and>
            attempt (snd (retryWithBackoff w options)) = 1"
    using retryLoop_rethrow [of st0 opts w e' track] run' o by (simp add: st0_def)
  show ?thesis using a b c by blast
qed

theorem retryWithBackoff_result_witness:
  "fst (retryWithBackoff
          \<lparr>w_heap = [emptyObject\<lparr>o_status := JNum 503, o_isError := True\<rparr>],
           w_fn = (\<lambda>n. if n < 2 then Inl (JRef 0) else Inr (7::nat)),
           w_random = (\<lambda>n. 1/2), w_now = (\<lambda>n. 0), w_parseDate = (\<lambda>s. None)\<rparr>
          (Some \<lparr>p_maxAttempts = Present 1, p_initialDelayMs = None, p_maxDelayMs = None,
                 p_shouldRetry = Absent, p_trackThrottleWaitTime = False\<rparr>)) =
     Thrown (JRef 0) \<and>
   attempt (snd (retryWithBackoff
          \<lparr>w_heap = [emptyObject\<lparr>o_status := JNum 503, o_isError := True\<rparr>],
           w_fn = (\<lambda>n. if n < 2 then Inl (JRef 0) else Inr (7::nat)),
           w_random = (\<lambda>n. 1/2), w_now = (\<lambda>n. 0), w_parseDate = (\<lambda>s. None)\<rparr>
          (Some \<lparr>p_maxAttempts = Present 1, p_initialDelayMs = None, p_maxDelayMs = None,
                 p_shouldRetry = Absent, p_trackThrottleWaitTime = False\<rparr>))) = 1 \<and>
   fst (retryWithBackoff
          \<lparr>w_heap = [emptyObject\<lparr>o_status := JNum 503, o_isError := True\<rparr>],
           w_fn = (\<lambda>n. if n < 2 then Inl (JRef 0) else Inr (7::nat)),
           w_random = (\<lambda>n. 1/2), w_now = (\<lambda>n. 0), w_parseDate = (\<lambda>s. None)\<rparr>
          (Some \<lparr>p_maxAttempts = Absent, p_initialDelayMs = Some 10, p_maxDelayMs = None,
                 p_shouldRetry = Present (\<lambda>error. Inr False),
                 p_trackThrottleWaitTime = False\<rparr>)) =
     Thrown (JRef 0) \<and>
   fst (retryWithBackoff
          \<lparr>w_heap = [emptyObject\<lparr>o_status := JNum 503, o_isError := True\<rparr>],
           w_fn = (\<lambda>n. if n < 2 then Inl (JRef 0) else Inr (7::nat)),
           w_random = (\<lambda>n. 1/2), w_now = (\<lambda>n. 0), w_parseDate = (\<lambda>s. None)\<rparr>
          None) = Returned 7 \<and>
   attempt (snd (retryWithBackoff
          \<lparr>w_heap = [emptyObject\<lparr>o_status := JNum 503, o_isError := True\<rparr>],
           w_fn = (\<lambda>n. if n < 2 then Inl (JRef 0) else Inr (7::nat)),
           w_random = (\<lambda>n. 1/2), w_now = (\<lambda>n. 0), w_parseDate = (\<lambda>s. None)\<rparr>
          None)) = 3"
proof -
  let ?h = "[emptyObject\<lparr>o_status := JNum 503, o_isError := True\<rparr>]"
  let ?w = "\<lparr>w_heap = ?h,
           w_fn = (\<lambda>n. if n < 2 then Inl (JRef 0) else Inr (7::nat)),
           w_random = (\<lambda>n. 1/2), w_now = (\<lambda>n. 0), w_parseDate = (\<lambda>s. None)\<rparr>"
  let ?one = "Some \<lparr>p_maxAttempts = Present 1, p_initialDelayMs = None, p_maxDelayMs = None,
                 p_shouldRetry = Absent, p_trackThrottleWaitTime = False\<rparr>"
  let ?never = "Some \<lparr>p_maxAttempts = Absent, p_initialDelayMs = Some 10, p_maxDelayMs = None,
                 p_shouldRetry = Present (\<lambda>error. Inr False),
                 p_trackThrottleWaitTime = False\<rparr>"
  have t: "defaultShouldRetry ?h (JRef 0) = Inr True"
    by (simp add: defaultShouldRetry_def deref_def emptyObject_def)
  have l: "logRetryAttempt ?h (JRef 0) (getErrorStatus ?h (JRef 0)) = None"
    by (simp add: logRetryAttempt_def getErrorStatus_def deref_def emptyObject_def)
  have r: "\<forall>j<2. retried ?w (defaultShouldRetry (w_heap ?w)) j"
    using t l by (simp add: retried_def)
  have a1: "(case ?one of None \<Rightarrow> Absent | Some p \<Rightarrow> p_maxAttempts p) = Present 1 \<or>
       (case ?one of None \<Rightarrow> Absent | Some p \<Rightarrow> p_maxAttempts p) = Absent \<and> (1::int) = 5"
    by simp
  have p1: "(case ?one of None \<Rightarrow> Absent | Some p \<Rightarrow> p_shouldRetry p) =
         Present (defaultShouldRetry (w_heap ?w)) \<or>
       (case ?one of None \<Rightarrow> Absent | Some p \<Rightarrow> p_shouldRetry p) = Absent \<and>
       defaultShouldRetry (w_heap ?w) = defaultShouldRetry (w_heap ?w)"
    by simp
  have a2: "(case ?never of None \<Rightarrow> Absent | Some p \<Rightarrow> p_maxAttempts p) = Present 5 \<or>
       (case ?never of None \<Rightarrow> Absent | Some p \<Rightarrow> p_maxAttempts p) = Absent \<and> (5::int) = 5"
    by simp
  have p2: "(case ?never of None \<Rightarrow> Absent | Some p \<Rightarrow> p_shouldRetry p) =
         Present (\<lambda>error. Inr False) \<or>
       (case ?never of None \<Rightarrow> Absent | Some p \<Rightarrow> p_shouldRetry p) = Absent \<and>
       (\<lambda>error. Inr False) = defaultShouldRetry (w_heap ?w)"
    by simp
  have a3: "(case None of None \<Rightarrow> Absent | Some p \<Rightarrow> p_maxAttempts p) = Present 5 \<or>
       (case None of None \<Rightarrow> Absent | Some p \<Rightarrow> p_maxAttempts p) = Absent \<and> (5::int) = 5"
    by simp
  have p3: "(case None of None \<Rightarrow> Absent | Some p \<Rightarrow> p_shouldRetry p) =
         Present (defaultShouldRetry (w_heap ?w)) \<or>
       (case None of None \<Rightarrow> Absent | Some p \<Rightarrow> p_shouldRetry p) = Absent \<and>
       defaultShouldRetry (w_heap ?w) = defaultShouldRetry (w_heap ?w)"
    by simp
  have none: "\<forall>j<0. retried ?w sr j" for sr by simp
  show ?thesis
    using retryWithBackoff_result [OF a1 p1 none, of 7 "JRef 0" "JRef 0"]
      retryWithBackoff_result [OF a2 p2 none, of 7 "JRef 0" "JRef 0"]
      retryWithBackoff_result [OF a3 p3 r, of 7 "JRef 0" "JRef 0"]
    by simp
qed

text \<open>
  Keys that are present with the value \<^verbatim>\<open>undefined\<close> override the defaults: without a
  number of attempts the loop is not entered and \<^verbatim>\<open>fn\<close> is never called; without a
  predicate the first failure that is not the last attempt ends in a \<^verbatim>\<open>TypeError\<close>.
\<close>

lemma retryWithBackoff_undefined_keys:
  "fst (retryWithBackoff
          \<lparr>w_heap = [], w_fn = (\<lambda>n. Inr (7::nat)), w_random = (\<lambda>n. 1/2), w_now = (\<lambda>n. 0),
           w_parseDate = (\<lambda>s. None)\<rparr>
          (Some \<lparr>p_maxAttempts = Undefined, p_initialDelayMs = None, p_maxDelayMs = None,
                 p_shouldRetry = Absent, p_trackThrottleWaitTime = False\<rparr>)) =
     ThrownExhausted \<and>
   fst (retryWithBackoff
          \<lparr>w_heap = [], w_fn = (\<lambda>n. Inl (JStr ''socket hang up'') :: jsval + nat),
           w_random = (\<lambda>n. 1/2), w_now = (\<lambda>n. 0), w_parseDate = (\<lambda>s. None)\<rparr>
          (Some \<lparr>p_maxAttempts = Absent, p_initialDelayMs = None, p_maxDelayMs = None,
                 p_shouldRetry = Undefined, p_trackThrottleWaitTime = False\<rparr>)) =
     ThrownError (TypeError ''shouldRetry is not a function'')"
  by (simp add: retryWithBackoff_def mergeOptions_def DEFAULT_RETRY_OPTIONS_def Let_def
      retryLoop.simps)








text \<open>
  An \<^verbatim>\<open>Error\<close> whose message is not a string, without a status: \<^verbatim>\<open>defaultShouldRetry\<close>
  raises on a truthy message, and \<^verbatim>\<open>logRetryAttempt\<close> on \<^verbatim>\<open>null\<close>, under a predicate of
  the caller that accepts the error.
\<close>

lemma message_not_a_string:
  "fst (retryWithBackoff
          \<lparr>w_heap = [emptyObject\<lparr>o_message := JNum 7, o_isError := True\<rparr>],
           w_fn = (\<lambda>n. Inl (JRef 0) :: jsval + nat),
           w_random = (\<lambda>n. 1/2), w_now = (\<lambda>n. 0), w_parseDate = (\<lambda>s. None)\<rparr> None) =
     ThrownError (TypeError ''error.message.includes is not a function'') \<and>
   fst (retryWithBackoff
          \<lparr>w_heap = [emptyObject\<lparr>o_message := JNull, o_isError := True\<rparr>],
           w_fn = (\<lambda>n. Inl (JRef 0) :: jsval + nat),
           w_random = (\<lambda>n. 1/2), w_now = (\<lambda>n. 0), w_parseDate = (\<lambda>s. None)\<rparr>
          (Some \<lparr>p_maxAttempts = Absent, p_initialDelayMs = None, p_maxDelayMs = None,
                 p_shouldRetry = Present (\<lambda>error. Inr True),
                 p_trackThrottleWaitTime = False\<rparr>)) =
     ThrownError (TypeError (''Cannot read properties of null (reading '' @ [CHR 0x27] @
                             ''includes'' @ [CHR 0x27] @ '')''))"
  by (simp add: retryWithBackoff_def mergeOptions_def DEFAULT_RETRY_OPTIONS_def Let_def
      retryLoop.simps defaultShouldRetry_def logRetryAttempt_def getErrorStatus_def
      getDelayDurationAndStatus_def deref_def emptyObject_def)

subsection \<open>Transient network errors\<close>











lemma str_includes_iff: "str_includes s sub \<longleftrightarrow> (\<exists>ps ss. s = ps @ sub @ ss)"
proof (induction s)
  case Nil
  then show ?case by auto
next
  case (Cons c cs)
  show ?case
  proof
    assume "str_includes (c # cs) sub"
    then consider "prefix sub (c # cs)" | "str_includes cs sub" by auto
    then show "\<exists>ps ss. c # cs = ps @ sub @ ss"
    proof cases
      case 1
      then obtain ss where "c # cs = sub @ ss" by (auto simp: prefix_def)
      then have "c # cs = [] @ sub @ ss" by simp
      then show ?thesis by blast
    next
      case 2
      then obtain ps ss where "cs = ps @ sub @ ss" using Cons.IH by blast
      then have "c # cs = (c # ps) @ sub @ ss" by simp
      then show ?thesis by blast
    qed
  next
    assume "\<exists>ps ss. c # cs = ps @ sub @ ss"
    then obtain ps ss where e: "c # cs = ps @ sub @ ss" by blast
    show "str_includes (c # cs) sub"
    proof (cases ps)
      case Nil
      then have "prefix sub (c # cs)" using e by (simp add: prefix_def)
      then show ?thesis by simp
    next
      case (Cons p ps')
      then have "cs = ps' @ sub @ ss" using e by simp
      then show ?thesis using Cons.IH by auto
    qed
  qed
qed












subsection \<open>The template engine\<close>

declare processLoop.simps [simp del]

text \<open>
  The string returned is the same whatever \<^verbatim>\<open>process.env.DEBUG\<close> and the options are:
  these only decide what is written to the console.
\<close>

lemma processLoop_result_independent:
  "fst (processLoop proto e1 o1 content vars pos result l1) =
   fst (processLoop proto e2 o2 content vars pos result l2)"
proof (induction proto e1 o1 content vars pos result l1 arbitrary: l2 rule: processLoop.induct)
  case (1 proto e1 o1 content vars pos result l1)
  show ?case
  proof (cases "pos < length content")
    case False
    then show ?thesis
      by (simp add: processLoop.simps [of proto _ _ content vars pos])
  next
    case True
    show ?thesis
    proof (cases "indexOf content ''{{'' pos")
      case None
      then show ?thesis using True
        by (simp add: processLoop.simps [of proto _ _ content vars pos])
    next
      case (Some openPos)
      show ?thesis
      proof (cases "indexOf content ''}}'' (openPos + 2)")
        case None
        then show ?thesis using True Some
          by (simp add: processLoop.simps [of proto _ _ content vars pos])
      next
        case (Some closePos)
        note IH = "1.IH" [OF True \<open>indexOf content ''{{'' pos = Some openPos\<close> Some refl refl]
        show ?thesis
          using True \<open>indexOf content ''{{'' pos = Some openPos\<close> Some IH
          by (simp add: processLoop.simps [of proto _ _ content vars pos] Let_def
              split: templateValue.splits)
      qed
    qed
  qed
qed

lemma processTemplateIn_debug_independent:
  "fst (processTemplateIn proto env1 content variables options1) =
   fst (processTemplateIn proto env2 content variables options2)"
  by (cases content) (simp_all add: processTemplateIn_def processLoop_result_independent)


lemma findFirst_take:
  "findFirst s pat = Some i \<Longrightarrow> take (length pat) (drop i s) = pat"
proof (induction s arbitrary: i)
  case Nil
  then show ?case by (simp split: if_splits)
next
  case (Cons c cs)
  show ?case
  proof (cases "prefix pat (c # cs)")
    case True
    then have "i = 0" using Cons.prems by simp
    moreover obtain zs where "c # cs = pat @ zs" using True by (auto simp: prefix_def)
    ultimately show ?thesis by simp
  next
    case False
    then obtain k where "findFirst cs pat = Some k" "i = Suc k"
      using Cons.prems by auto
    then show ?thesis using Cons.IH by simp
  qed
qed

lemma indexOf_substring:
  assumes "indexOf s pat fromIndex = Some i"
  shows "substring s i (i + length pat) = pat"
proof -
  obtain k where k: "findFirst (drop fromIndex s) pat = Some k"
    "i = min fromIndex (length s) + k"
    using assms by (auto simp: indexOf_def)
  have "take (length pat) (drop k (drop fromIndex s)) = pat"
    using k(1) by (rule findFirst_take)
  moreover have "drop k (drop fromIndex s) = drop i s"
  proof (cases "fromIndex \<le> length s")
    case True
    then show ?thesis using k(2) by (simp add: add.commute)
  next
    case False
    then show ?thesis using k(2) by simp
  qed
  ultimately show ?thesis by (simp add: substring_def)
qed

text \<open>
  One iteration of the loop, case by case: no opener left; an opener with no closer after
  it; a well-formed occurrence whose trimmed name is a key of the map with a string
  value; one whose name is neither a key of the map nor of the prototype; and a name that
  contains braces, where only the opener is emitted and scanning resumes right after it.
\<close>

lemma processLoop_steps:
  assumes pos: "currentPosition < length content"
  shows "(indexOf content ''{{'' currentPosition = None \<longrightarrow>
            processLoop proto e opts content vars currentPosition result logged =
              (result @ drop currentPosition content, logged)) \<and>
         (indexOf content ''{{'' currentPosition = Some i \<and>
          indexOf content ''}}'' (i + 2) = None \<longrightarrow>
            processLoop proto e opts content vars currentPosition result logged =
              (result @ substring content currentPosition i @ drop i content, logged)) \<and>
         (indexOf content ''{{'' currentPosition = Some i \<and>
          indexOf content ''}}'' (i + 2) = Some j \<and>
          name = trim (substring content (i + 2) j) \<and> name \<noteq> [] \<and>
          \<not> str_includes name ''{{'' \<and> \<not> str_includes name ''}}'' \<and>
          vars name = Some (TString v) \<longrightarrow>
            processLoop proto e opts content vars currentPosition result logged =
              processLoop proto e opts content vars (j + 2)
                (result @ substring content currentPosition i @ v)
                (logged @ logSubstitution e opts name v)) \<and>
         (indexOf content ''{{'' currentPosition = Some i \<and>
          indexOf content ''}}'' (i + 2) = Some j \<and>
          name = trim (substring content (i + 2) j) \<and> name \<noteq> [] \<and>
          \<not> str_includes name ''{{'' \<and> \<not> str_includes name ''}}'' \<and>
          vars name = None \<and> proto name = None \<longrightarrow>
            processLoop proto e opts content vars currentPosition result logged =
              processLoop proto e opts content vars (j + 2)
                (result @ substring content currentPosition i)
                (logged @ logSubstitution e opts name [])) \<and>
         (indexOf content ''{{'' currentPosition = Some i \<and>
          indexOf content ''}}'' (i + 2) = Some j \<and>
          name = trim (substring content (i + 2) j) \<and>
          (str_includes name ''{{'' \<or> str_includes name ''}}'') \<longrightarrow>
            processLoop proto e opts content vars currentPosition result logged =
              processLoop proto e opts content vars (i + 2)
                (result @ substring content currentPosition i @ ''{{'')
                logged)"
proof (intro conjI impI)
  assume "indexOf content ''{{'' currentPosition = None"
  then show "processLoop proto e opts content vars currentPosition result logged =
      (result @ drop currentPosition content, logged)"
    using pos by (simp add: processLoop.simps [of proto e opts content vars currentPosition])
next
  assume "indexOf content ''{{'' currentPosition = Some i \<and>
          indexOf content ''}}'' (i + 2) = None"
  then show "processLoop proto e opts content vars currentPosition result logged =
      (result @ substring content currentPosition i @ drop i content, logged)"
    using pos by (simp add: processLoop.simps [of proto e opts content vars currentPosition])
next
  assume a: "indexOf content ''{{'' currentPosition = Some i \<and>
          indexOf content ''}}'' (i + 2) = Some j \<and>
          name = trim (substring content (i + 2) j) \<and> name \<noteq> [] \<and>
          \<not> str_includes name ''{{'' \<and> \<not> str_includes name ''}}'' \<and>
          vars name = Some (TString v)"
  then have i: "indexOf content ''{{'' currentPosition = Some i"
    and j: "indexOf content ''}}'' (Suc (Suc i)) = Some j"
    and n: "trim (substring content (Suc (Suc i)) j) = name" by auto
  from a have f: "name \<noteq> []" "\<not> str_includes name ''{{''" "\<not> str_includes name ''}}''"
    "vars name = Some (TString v)" by auto
  show "processLoop proto e opts content vars currentPosition result logged =
      processLoop proto e opts content vars (j + 2)
        (result @ substring content currentPosition i @ v)
        (logged @ logSubstitution e opts name v)"
    using pos i j n f
    by (simp add: processLoop.simps [of proto e opts content vars currentPosition] Let_def
        hasProperty_def getProperty_def)
next
  assume a: "indexOf content ''{{'' currentPosition = Some i \<and>
          indexOf content ''}}'' (i + 2) = Some j \<and>
          name = trim (substring content (i + 2) j) \<and> name \<noteq> [] \<and>
          \<not> str_includes name ''{{'' \<and> \<not> str_includes name ''}}'' \<and>
          vars name = None \<and> proto name = None"
  then have i: "indexOf content ''{{'' currentPosition = Some i"
    and j: "indexOf content ''}}'' (Suc (Suc i)) = Some j"
    and n: "trim (substring content (Suc (Suc i)) j) = name" by auto
  from a have f: "name \<noteq> []" "\<not> str_includes name ''{{''" "\<not> str_includes name ''}}''"
    "\<not> hasProperty proto vars name" by (auto simp: hasProperty_def)
  show "processLoop proto e opts content vars currentPosition result logged =
      processLoop proto e opts content vars (j + 2)
        (result @ substring content currentPosition i)
        (logged @ logSubstitution e opts name [])"
    using pos i j n f
    by (simp add: processLoop.simps [of proto e opts content vars currentPosition] Let_def)
next
  assume a: "indexOf content ''{{'' currentPosition = Some i \<and>
          indexOf content ''}}'' (i + 2) = Some j \<and>
          name = trim (substring content (i + 2) j) \<and>
          (str_includes name ''{{'' \<or> str_includes name ''}}'')"
  then have i: "indexOf content ''{{'' currentPosition = Some i"
    and j: "indexOf content ''}}'' (Suc (Suc i)) = Some j"
    and n: "trim (substring content (Suc (Suc i)) j) = name" by auto
  from a have f: "name \<noteq> []" "str_includes name ''{{'' \<or> str_includes name ''}}''"
    by auto
  have sub: "substring content i (Suc (Suc i)) = ''{{''"
    using i by (rule indexOf_substring [of content "''{{''" currentPosition i, simplified])
  show "processLoop proto e opts content vars currentPosition result logged =
      processLoop proto e opts content vars (i + 2)
        (result @ substring content currentPosition i @ ''{{'')
        logged"
    using pos i j n f sub
    by (simp add: processLoop.simps [of proto e opts content vars currentPosition] Let_def)
qed

text \<open>
  C5. An occurrence whose name is not in the variable map is to be replaced by the empty
  string. For the template \<^verbatim>\<open>{{toString}}\<close> and the empty map the code does not do so:
  the name is found on \<^verbatim>\<open>Object.prototype\<close> by the operator \<^verbatim>\<open>in\<close>, and the text of
  the inherited function is emitted.
\<close>

theorem inherited_name_substituted:
  "fst (processTemplate None (Some ''{{toString}}'') (Some Map.empty) None) =
     ''function toString() { [native code] }''"
  by code_simp

subsection \<open>The profile manager\<close>

lemma validProfile_not_null: "validProfile p \<Longrightarrow> p \<noteq> JsonNull"
  by (auto simp: validProfile_def)

text \<open>
  C4 (amended). For every profile name and every profile \<open>p\<close> that has version 1 and a
  truthy provider, model, modelParams and ephemeralSettings, and that \<^verbatim>\<open>JSON.parse\<close> reads
  back from its \<^verbatim>\<open>JSON.stringify\<close> text, \<^verbatim>\<open>loadProfile(name)\<close> after
  \<^verbatim>\<open>saveProfile(name, p)\<close> returns \<open>p\<close>.
\<close>

theorem profile_round_trip:
  assumes codec: "JSON_parse rt (JSON_stringify rt p) = Inr p"
    and valid: "validProfile p"
  shows "loadProfile rt (saveProfile rt fs profilesDir profileName p) profilesDir profileName
         = Inr p"
  using assms validProfile_not_null [OF valid]
  by (simp add: loadProfile_def saveProfile_def readFile_def writeFile_def
      validProfile_def Let_def)

theorem profile_round_trip_witness:
  "loadProfile textRuntime (saveProfile textRuntime Map.empty ''profiles'' ''demo'' demoProfile)
     ''profiles'' ''demo'' = Inr demoProfile"
proof -
  have 1: "JSON_parse textRuntime (JSON_stringify textRuntime demoProfile) = Inr demoProfile"
    by (simp add: textRuntime_def)
  have 2: "validProfile demoProfile"
    by (simp add: validProfile_def demoProfile_def)
  show ?thesis
    using profile_round_trip [OF 1 2] by simp
qed

text \<open>
  C4 as stated fails: a profile whose model is the empty string is written by
  \<^verbatim>\<open>saveProfile\<close>, and \<^verbatim>\<open>loadProfile\<close> rejects it.
\<close>

theorem profile_round_trip_counterexample:
  "loadProfile textRuntime
     (saveProfile textRuntime Map.empty ''profiles'' ''demo''
        (JsonObject
           [(''version'', JsonNumber 1), (''provider'', JsonString ''openai''),
            (''model'', JsonString []), (''modelParams'', JsonObject []),
            (''ephemeralSettings'', JsonObject [])]))
     ''profiles'' ''demo''
   = Inl (Error (''Profile '' @ quoted ''demo'' @ '' is invalid: missing required fields''))"
  by (simp add: loadProfile_def saveProfile_def readFile_def writeFile_def
      textRuntime_def Let_def)



lemma str_includes_middle: "str_includes (a @ quoted name @ b) name"
proof -
  have "a @ quoted name @ b = (a @ [CHR 0x27]) @ name @ ([CHR 0x27] @ b)"
    by (simp add: quoted_def)
  then show ?thesis unfolding str_includes_iff by blast
qed

lemma str_includes_start: "str_includes (sub @ rest) sub"
  unfolding str_includes_iff by (metis append_Nil)

lemma enoent_not_in_missing: "\<not> str_includes ''missing required fields'' ''ENOENT''"
  by simp

lemma enoent_not_in_unsupported:
  "\<not> str_includes ''unsupported profile version'' ''ENOENT''"
  by simp

text \<open>
  The branches of the \<^verbatim>\<open>catch\<close> block, case by case: the three that wrap the error in
  one that names the profile, and the last, which re-raises the error as it is.
\<close>

lemma loadProfile_catch_branches:
  assumes path: "filePath = path_join rt profilesDir (profileName @ ''.json'')"
  shows "(fs filePath = None \<longrightarrow>
            loadProfile rt fs profilesDir profileName =
              Inl (Error (''Profile '' @ quoted profileName @ '' not found''))) \<and>
         (fs filePath = Some content \<and> JSON_parse rt content = Inl message \<and>
          \<not> str_includes message ''ENOENT'' \<longrightarrow>
            loadProfile rt fs profilesDir profileName =
              Inl (Error (''Profile '' @ quoted profileName @ '' is corrupted''))) \<and>
         (fs filePath = Some content \<and> JSON_parse rt content = Inr profile \<and>
          profile \<noteq> JsonNull \<and> missingRequiredField profile \<longrightarrow>
            loadProfile rt fs profilesDir profileName =
              Inl (Error (''Profile '' @ quoted profileName @
                          '' is invalid: missing required fields''))) \<and>
         (fs filePath = Some content \<and> JSON_parse rt content = Inr profile \<and>
          profile \<noteq> JsonNull \<and> \<not> missingRequiredField profile \<and>
          getMember profile ''version'' \<noteq> Some (JsonNumber 1) \<longrightarrow>
            loadProfile rt fs profilesDir profileName =
              Inl (Error ''unsupported profile version'')) \<and>
         str_includes (''Profile '' @ quoted profileName @ '' not found'') profileName \<and>
         str_includes (''Profile '' @ quoted profileName @ '' is corrupted'') profileName \<and>
         str_includes (''Profile '' @ quoted profileName @
                       '' is invalid: missing required fields'') profileName"
proof (intro conjI impI)
  assume "fs filePath = None"
  moreover have "str_includes
      (''ENOENT: no such file or directory, open '' @ [CHR 0x27] @ filePath @ [CHR 0x27])
      ''ENOENT''"
    using str_includes_start [of "''ENOENT''"] by simp
  ultimately show "loadProfile rt fs profilesDir profileName =
      Inl (Error (''Profile '' @ quoted profileName @ '' not found''))"
    using path by (simp add: loadProfile_def readFile_def Let_def)
next
  assume "fs filePath = Some content \<and> JSON_parse rt content = Inl message \<and>
          \<not> str_includes message ''ENOENT''"
  then show "loadProfile rt fs profilesDir profileName =
      Inl (Error (''Profile '' @ quoted profileName @ '' is corrupted''))"
    using path by (simp add: loadProfile_def readFile_def Let_def)
next
  assume "fs filePath = Some content \<and> JSON_parse rt content = Inr profile \<and>
          profile \<noteq> JsonNull \<and> missingRequiredField profile"
  then show "loadProfile rt fs profilesDir profileName =
      Inl (Error (''Profile '' @ quoted profileName @ '' is invalid: missing required fields''))"
    using path enoent_not_in_missing
    by (simp add: loadProfile_def readFile_def Let_def missingRequiredField_def)
next
  assume "fs filePath = Some content \<and> JSON_parse rt content = Inr profile \<and>
          profile \<noteq> JsonNull \<and> \<not> missingRequiredField profile \<and>
          getMember profile ''version'' \<noteq> Some (JsonNumber 1)"
  then show "loadProfile rt fs profilesDir profileName =
      Inl (Error ''unsupported profile version'')"
    using path enoent_not_in_unsupported
    by (simp add: loadProfile_def readFile_def Let_def missingRequiredField_def)
qed (rule str_includes_middle)+

lemma loadProfile_catch_branches_example:
  "loadProfile textRuntime Map.empty ''profiles'' ''demo'' =
     Inl (Error (''Profile '' @ quoted ''demo'' @ '' not found'')) \<and>
   loadProfile textRuntime [''profiles/demo.json'' \<mapsto> Inr ''{version''] ''profiles'' ''demo'' =
     Inl (Error (''Profile '' @ quoted ''demo'' @ '' is corrupted'')) \<and>
   loadProfile textRuntime
     [''profiles/demo.json'' \<mapsto> Inl (JsonObject [(''version'', JsonNumber 1)])]
     ''profiles'' ''demo'' =
     Inl (Error (''Profile '' @ quoted ''demo'' @ '' is invalid: missing required fields'')) \<and>
   str_includes (''Profile '' @ quoted ''demo'' @ '' not found'') ''demo''"
proof -
  have p: "''profiles/demo.json'' = path_join textRuntime ''profiles'' (''demo'' @ ''.json'')"
    by (simp add: textRuntime_def)
  have m: "missingRequiredField (JsonObject [(''version'', JsonNumber 1)])"
    by (simp add: missingRequiredField_def)
  have e: "\<not> str_includes ''Unexpected token in JSON at position 0'' ''ENOENT''"
    by simp
  have j: "JSON_parse textRuntime (Inr ''{version'') =
      Inl ''Unexpected token in JSON at position 0''"
    "JSON_parse textRuntime (Inl (JsonObject [(''version'', JsonNumber 1)])) =
      Inr (JsonObject [(''version'', JsonNumber 1)])"
    by (simp_all add: textRuntime_def)
  show ?thesis
    using loadProfile_catch_branches [OF p, of Map.empty]
      loadProfile_catch_branches [OF p, of "[''profiles/demo.json'' \<mapsto> Inr ''{version'']"
        "Inr ''{version''" "''Unexpected token in JSON at position 0''"]
      loadProfile_catch_branches [OF p,
        of "[''profiles/demo.json'' \<mapsto> Inl (JsonObject [(''version'', JsonNumber 1)])]"
        "Inl (JsonObject [(''version'', JsonNumber 1)])" _ "JsonObject [(''version'', JsonNumber 1)]"]
      m e j
    by simp
qed

text \<open>
  C8. \<^verbatim>\<open>loadProfile\<close> on an invalid profile is to raise an error whose message contains
  the profile name. The code does not do so for two invalid profiles: for a file with
  the required fields and version 2 it raises \<^verbatim>\<open>unsupported profile version\<close>, which the
  \<^verbatim>\<open>catch\<close> block passes on without naming the profile, unlike the three errors it wraps;
  for a file that holds \<^verbatim>\<open>null\<close>, which has none of the required fields, the check of the
  required fields itself fails with a \<^verbatim>\<open>TypeError\<close>, passed on likewise.
\<close>

theorem loadProfile_error_without_name:
  "loadProfile textRuntime
     [''profiles/demo.json'' \<mapsto>
        Inl (JsonObject
               [(''version'', JsonNumber 2), (''provider'', JsonString ''openai''),
                (''model'', JsonString ''gpt-x''), (''modelParams'', JsonObject []),
                (''ephemeralSettings'', JsonObject [])])]
     ''profiles'' ''demo'' = Inl (Error ''unsupported profile version'') \<and>
   \<not> str_includes ''unsupported profile version'' ''demo'' \<and>
   loadProfile textRuntime [''profiles/demo.json'' \<mapsto> Inl JsonNull] ''profiles'' ''demo'' =
     Inl (TypeError (''Cannot read properties of null (reading '' @ quoted ''version'' @ '')'')) \<and>
   \<not> str_includes (''Cannot read properties of null (reading '' @ quoted ''version'' @ '')'')
       ''demo''"
  by (simp add: loadProfile_def readFile_def textRuntime_def Let_def quoted_def)



theorem loadProfile_error_without_name_witness:
  "\<exists>fs e. loadProfile textRuntime fs ''profiles'' ''demo'' = Inl e \<and>
          \<not> str_includes (errorMessage e) ''demo''"
proof -
  let ?fs = "[''profiles/demo.json'' \<mapsto>
        Inl (JsonObject
               [(''version'', JsonNumber 2), (''provider'', JsonString ''openai''),
                (''model'', JsonString ''gpt-x''), (''modelParams'', JsonObject []),
                (''ephemeralSettings'', JsonObject [])])]"
  have "loadProfile textRuntime ?fs ''profiles'' ''demo'' =
      Inl (Error ''unsupported profile version'') \<and>
    \<not> str_includes (errorMessage (Error ''unsupported profile version'')) ''demo''"
    using loadProfile_error_without_name by simp
  then show ?thesis by blast
qed

subsection \<open>The provider manager\<close>

lemma setActiveProvider_fallback:
  assumes "activeProviderUnset m" "providers_get m name = Some p"
  shows "\<exists>m'. setActiveProvider name m = Inr m' \<and> settings_activeProvider m' = Some name \<and>
              providers m' = providers m"
  using assms
  by (simp add: setActiveProvider_def activeProviderUnset_def providers_has_def
      providers_get_def Let_def)

lemma getActiveProvider_fallback:
  assumes unset: "activeProviderUnset m" and p: "providers_get m name = Some p"
    and name: "name \<noteq> []"
    and resolved:
      "(if configProviderRegistered m then orEmpty (config_getProvider m)
        else if providers_has m ''openai'' then ''openai''
        else (case providers m of [] \<Rightarrow> [] | (key, p) # rest \<Rightarrow> key)) = name"
  shows "\<exists>m'. setActiveProvider name m = Inr m' \<and> getActiveProvider m = Inr (p, m') \<and>
              settings_activeProvider m' = Some name"
proof -
  obtain m' where m': "setActiveProvider name m = Inr m'"
      "settings_activeProvider m' = Some name" "providers m' = providers m"
    using setActiveProvider_fallback [OF unset p] by blast
  have "providers_get m' name = Some p" using p m'(3) by (simp add: providers_get_def)
  then have "getActiveProvider m = Inr (p, m')"
    using unset name resolved m'(1)
    by (simp add: getActiveProvider_def activeProviderUnset_def configProviderRegistered_def
        Let_def)
  then show ?thesis using m' by blast
qed

text \<open>
  C6. \<^verbatim>\<open>getActiveProvider\<close> resolves the active provider by the ladder: the key
  \<^verbatim>\<open>activeProvider\<close> of the settings if set; else the provider of the configuration when
  registered; else \<^verbatim>\<open>openai\<close> when registered; else the first registered provider
  (provider names are not empty: the empty name stands for no provider). Whenever a
  fallback resolves the name, the provider is returned in the state that
  \<^verbatim>\<open>setActiveProvider\<close> of that name produces, where the settings hold the name.
\<close>

theorem getActiveProvider_ladder:
  "(\<not> activeProviderUnset m \<and> settings_activeProvider m = Some active \<and>
    providers_get m active = Some p \<longrightarrow>
      getActiveProvider m = Inr (p, m)) \<and>
   (activeProviderUnset m \<and> configProviderRegistered m \<and>
    config_getProvider m = Some preferred \<and> providers_get m preferred = Some p \<longrightarrow>
      (\<exists>m'. setActiveProvider preferred m = Inr m' \<and> getActiveProvider m = Inr (p, m') \<and>
            settings_activeProvider m' = Some preferred)) \<and>
   (activeProviderUnset m \<and> \<not> configProviderRegistered m \<and>
    providers_get m ''openai'' = Some p \<longrightarrow>
      (\<exists>m'. setActiveProvider ''openai'' m = Inr m' \<and> getActiveProvider m = Inr (p, m') \<and>
            settings_activeProvider m' = Some ''openai'')) \<and>
   (activeProviderUnset m \<and> \<not> configProviderRegistered m \<and>
    \<not> providers_has m ''openai'' \<and> providers m = (first, p) # rest \<and> first \<noteq> [] \<longrightarrow>
      (\<exists>m'. setActiveProvider first m = Inr m' \<and> getActiveProvider m = Inr (p, m') \<and>
            settings_activeProvider m' = Some first))"
proof (intro conjI impI)
  assume a: "\<not> activeProviderUnset m \<and> settings_activeProvider m = Some active \<and>
    providers_get m active = Some p"
  then have "orEmpty (settings_activeProvider m) = active" "active \<noteq> []"
    by (auto simp: activeProviderUnset_def orEmpty_def)
  then show "getActiveProvider m = Inr (p, m)"
    using a by (simp add: getActiveProvider_def Let_def)
next
  assume a: "activeProviderUnset m \<and> configProviderRegistered m \<and>
    config_getProvider m = Some preferred \<and> providers_get m preferred = Some p"
  then have "preferred \<noteq> []" by (auto simp: configProviderRegistered_def orEmpty_def)
  then show "\<exists>m'. setActiveProvider preferred m = Inr m' \<and> getActiveProvider m = Inr (p, m') \<and>
            settings_activeProvider m' = Some preferred"
    using a by (intro getActiveProvider_fallback) (simp_all add: orEmpty_def)
next
  assume a: "activeProviderUnset m \<and> \<not> configProviderRegistered m \<and>
    providers_get m ''openai'' = Some p"
  then show "\<exists>m'. setActiveProvider ''openai'' m = Inr m' \<and> getActiveProvider m = Inr (p, m') \<and>
            settings_activeProvider m' = Some ''openai''"
    by (intro getActiveProvider_fallback) (simp_all add: providers_has_def providers_get_def)
next
  assume a: "activeProviderUnset m \<and> \<not> configProviderRegistered m \<and>
    \<not> providers_has m ''openai'' \<and> providers m = (first, p) # rest \<and> first \<noteq> []"
  then show "\<exists>m'. setActiveProvider first m = Inr m' \<and> getActiveProvider m = Inr (p, m') \<and>
            settings_activeProvider m' = Some first"
    by (intro getActiveProvider_fallback) (simp_all add: providers_get_def)
qed

theorem getActiveProvider_ladder_witness:
  "getActiveProvider
     \<lparr>providers =
        [(''anthropic'', \<lparr>p_name = ''anthropic'', p_ident = 0, p_hasClearState = True\<rparr>),
         (''openai'', \<lparr>p_name = ''openai'', p_ident = 1, p_hasClearState = False\<rparr>)],
      serverToolsProvider = None, settings_activeProvider = None,
      config_getProvider = Some ''gemini'', config_loggingEnabled = True,
      clearStateCalls = [], providerSwitchEvents = []\<rparr> =
   Inr (\<lparr>p_name = ''openai'', p_ident = 1, p_hasClearState = False\<rparr>,
        \<lparr>providers =
           [(''anthropic'', \<lparr>p_name = ''anthropic'', p_ident = 0, p_hasClearState = True\<rparr>),
            (''openai'', \<lparr>p_name = ''openai'', p_ident = 1, p_hasClearState = False\<rparr>)],
         serverToolsProvider = None, settings_activeProvider = Some ''openai'',
         config_getProvider = Some ''gemini'', config_loggingEnabled = True,
         clearStateCalls = [], providerSwitchEvents = []\<rparr>)"
proof -
  let ?m = "\<lparr>providers =
        [(''anthropic'', \<lparr>p_name = ''anthropic'', p_ident = 0, p_hasClearState = True\<rparr>),
         (''openai'', \<lparr>p_name = ''openai'', p_ident = 1, p_hasClearState = False\<rparr>)],
      serverToolsProvider = None, settings_activeProvider = None,
      config_getProvider = Some ''gemini'', config_loggingEnabled = True,
      clearStateCalls = [], providerSwitchEvents = []\<rparr>"
  have 1: "activeProviderUnset ?m" by (simp add: activeProviderUnset_def orEmpty_def)
  have 2: "\<not> configProviderRegistered ?m"
    by (simp add: configProviderRegistered_def orEmpty_def providers_has_def)
  have 3: "providers_get ?m ''openai'' =
      Some \<lparr>p_name = ''openai'', p_ident = 1, p_hasClearState = False\<rparr>"
    by (simp add: providers_get_def)
  have 4: "setActiveProvider ''openai'' ?m = Inr (?m\<lparr>settings_activeProvider := Some ''openai''\<rparr>)"
    by (simp add: setActiveProvider_def providers_has_def providers_get_def orEmpty_def Let_def)
  show ?thesis
    using getActiveProvider_ladder [of ?m _ "\<lparr>p_name = ''openai'', p_ident = 1, p_hasClearState = False\<rparr>"]
      1 2 3 4
    by auto
qed

end
